theory Spec2Isabelle
  imports Complex_Main "HOL-Library.Multiset" "HOL-Library.Log_Nat"
begin

section \<open>Aim trainer (src/js/game.js): data model\<close>

text \<open>
  The module keeps its state in the private variables of one closure. The model collects
  them in the record \<open>game\<close>, together with the part of the browser the module talks to:
  the table of active timers, the counter that allocates timer handles, the canvas size and
  the local-storage item \<open>aimTrainerLeaderboard\<close>.

  JavaScript numbers are doubles. Counters, scores and times are integers, on which the
  arithmetic of doubles is exact below \<open>2\<^sup>5\<^sup>3\<close>: they are modelled as integers. The
  accuracy is computed with a division, and a target id is the sum of the clock and a
  random fraction: these are not exact and are modelled in the arithmetic of doubles (see
  \<open>double\<close>), as rationals. Coordinates are modelled as exact reals, JSON numbers as
  rationals. Time is not modelled: a timer may fire whenever its entry is in the timer
  table. Drawing, sounds, announcements and the other DOM updates do
  not touch the variables below and are left out; the page is assumed to hold the canvas.
\<close>

datatype difficulty = easy | normal | hard | expert

datatype mode = timed | endless

datatype error = TypeError | SyntaxError | ReferenceError | SortOrderUnspecified

text \<open>Values that \<open>JSON.parse\<close> can return.\<close>

datatype jsvalue =
    JNull
  | JBool bool
  | JNum rat
  | JStr string
  | JArr "jsvalue list"
  | JObj "(string \<times> jsvalue) list"

text \<open>
  The text stored under the leaderboard key, given by what \<open>JSON.parse\<close> does with it:
  \<open>NotJSON s\<close> is a text \<open>s\<close> that is not a JSON document (the parser raises
  \<open>SyntaxError\<close>), \<open>JSONText v\<close> is a JSON document denoting \<open>v\<close>.
\<close>

datatype item = NotJSON string | JSONText jsvalue

text \<open>
  The entries of the browser's timer table: the two \<open>setInterval\<close> callbacks of the
  module and the \<open>setTimeout\<close> callback that \<open>spawnTarget\<close> registers for the target
  with the given id.
\<close>

datatype task = ClockInterval | SpawnInterval | ExpiryTimeout rat

record target =
  tid :: rat
  tx :: real
  ty :: real
  radius :: real
  spawnTime :: int
  lifetime :: int
  isHover :: bool
  opacity :: real

record game =
  isInitialized :: bool
  isPlaying :: bool
  isPaused :: bool
  score :: int
  timeLeft :: int
  targetsHit :: nat
  targetsMissed :: nat
  accuracy :: int
  gameTimer :: "nat option"
  targetSpawnTimer :: "nat option"
  currentDifficulty :: difficulty
  currentMode :: mode
  leaderboard :: jsvalue
  activeTargets :: "target list"
  canvasWidth :: real
  canvasHeight :: real
  timers :: "(nat \<times> task) list"
  nextHandle :: nat
  storage :: "item option"

text \<open>
  A handler either returns, or raises an exception and leaves the state as it is at the
  throw. \<open>SortOrderUnspecified\<close> is not a JavaScript exception: it marks the one place
  where the language does not fix what the code computes (see \<open>Array_sort\<close>).
\<close>

type_synonym result = "(error \<times> game) + game"

definition state_of :: "result \<Rightarrow> game" where
  "state_of r = (case r of Inl (e, st) \<Rightarrow> st | Inr st \<Rightarrow> st)"

subsection \<open>The configuration tables\<close>

fun gameDuration :: "mode \<Rightarrow> int" where
  "gameDuration timed = 30"
| "gameDuration endless = 999999"

fun targetSpawnRate :: "difficulty \<Rightarrow> int" where
  "targetSpawnRate easy = 1500"
| "targetSpawnRate normal = 1000"
| "targetSpawnRate hard = 700"
| "targetSpawnRate expert = 500"

fun targetSize :: "difficulty \<Rightarrow> real" where
  "targetSize easy = 60"
| "targetSize normal = 50"
| "targetSize hard = 40"
| "targetSize expert = 30"

fun targetLifetime :: "difficulty \<Rightarrow> int" where
  "targetLifetime easy = 3000"
| "targetLifetime normal = 2000"
| "targetLifetime hard = 1500"
| "targetLifetime expert = 1000"

fun scoreMultiplier :: "difficulty \<Rightarrow> int" where
  "scoreMultiplier easy = 1"
| "scoreMultiplier normal = 2"
| "scoreMultiplier hard = 3"
| "scoreMultiplier expert = 5"

text \<open>The values of the module's variables when the script has been loaded.\<close>

definition initial_game :: "real \<Rightarrow> real \<Rightarrow> item option \<Rightarrow> game" where
  "initial_game w h stored =
     \<lparr> isInitialized = False, isPlaying = False, isPaused = False, score = 0,
       timeLeft = 30, targetsHit = 0, targetsMissed = 0, accuracy = 100,
       gameTimer = None, targetSpawnTimer = None, currentDifficulty = normal,
       currentMode = timed, leaderboard = JArr [], activeTargets = [],
       canvasWidth = w, canvasHeight = h, timers = [], nextHandle = 1,
       storage = stored \<rparr>"

section \<open>Timers of the host\<close>

text \<open>
  \<open>setInterval\<close> and \<open>setTimeout\<close> enter a task in the timer table under a fresh handle
  and return the handle; \<open>clearInterval\<close> removes the entry with the given handle, if any
  (\<open>clearInterval(null)\<close> does nothing). The table holds the timers of this module that
  run its logic; the timeout that redraws the canvas after a missed click belongs to the
  drawing and is left out.
\<close>

definition setInterval :: "task \<Rightarrow> game \<Rightarrow> nat \<times> game" where
  "setInterval c st =
     (nextHandle st,
      st\<lparr>timers := timers st @ [(nextHandle st, c)], nextHandle := Suc (nextHandle st)\<rparr>)"

definition setTimeout :: "task \<Rightarrow> game \<Rightarrow> nat \<times> game" where
  "setTimeout c st =
     (nextHandle st,
      st\<lparr>timers := timers st @ [(nextHandle st, c)], nextHandle := Suc (nextHandle st)\<rparr>)"

definition clearInterval :: "nat option \<Rightarrow> game \<Rightarrow> game" where
  "clearInterval ho st =
     (case ho of
        None \<Rightarrow> st
      | Some h \<Rightarrow> st\<lparr>timers := filter (\<lambda>e. fst e \<noteq> h) (timers st)\<rparr>)"

section \<open>Numbers of the host\<close>

text \<open>
  The result of an arithmetic operation on doubles is the double nearest to the exact
  result, the one with the even significand when two are equally near (IEEE 754 binary64,
  the rounding of ECMAScript). A double other than zero is a number \<open>m * 2\<^sup>e\<^sup>-\<^sup>5\<^sup>2\<close> with an
  integer \<open>m\<close> of 53 bits, where \<open>2\<^sup>e \<le> \<bar>x\<bar> < 2\<^sup>e\<^sup>+\<^sup>1\<close>: \<open>binade x\<close> is that exponent
  \<open>e\<close> for the exact result \<open>x\<close>, and \<open>double x\<close> the nearest double. The range of the
  exponent is not limited in the model: the numbers rounded below are quotients of counters,
  their products with \<open>100\<close> and sums of the clock with a fraction, far from the least and
  the greatest double.
\<close>

definition binade :: "rat \<Rightarrow> int" where
  "binade x = (if 1 \<le> x then bitlen \<lfloor>x\<rfloor> - 1 else - bitlen (\<lceil>1 / x\<rceil> - 1))"

definition round_half_even :: "rat \<Rightarrow> int" where
  "round_half_even r =
     (let n = \<lfloor>r\<rfloor>; d = r - of_int n
      in if d < 1 / 2 then n else if 1 / 2 < d then n + 1 else if even n then n else n + 1)"

definition double :: "rat \<Rightarrow> rat" where
  "double x =
     (if x = 0 then 0
      else (let ulp = 2 powi (binade \<bar>x\<bar> - 52)
            in of_int (round_half_even (x / ulp)) * ulp))"

text \<open>\<open>Math.round\<close> rounds to the nearest integer, halves upwards.\<close>

definition Math_round :: "rat \<Rightarrow> int" where
  "Math_round q = \<lfloor>q + 1 / 2\<rfloor>"

section \<open>Score and accuracy\<close>

text \<open>
  \<open>Math.round((targetsHit / total) * 100)\<close>: the quotient is rounded to a double, and so
  is its product with 100.
\<close>

definition updateAccuracy :: "game \<Rightarrow> game" where
  "updateAccuracy st =
     (let total = targetsHit st + targetsMissed st
      in st\<lparr>accuracy :=
               (if total > 0
                then Math_round (double (double (of_nat (targetsHit st) / of_nat total) * 100))
                else 100)\<rparr>)"

definition calculateFinalScore :: "game \<Rightarrow> game" where
  "calculateFinalScore st =
     (let accuracyBonus = accuracy st * 10;
          st1 = st\<lparr>score := score st + accuracyBonus\<rparr>
      in st1\<lparr>score := score st1 * scoreMultiplier (currentDifficulty st1)\<rparr>)"

definition resetGameState :: "game \<Rightarrow> game" where
  "resetGameState st =
     updateAccuracy
       (st\<lparr>score := 0, timeLeft := gameDuration (currentMode st), targetsHit := 0,
           targetsMissed := 0, accuracy := 100, activeTargets := []\<rparr>)"

section \<open>Session control\<close>

definition startTimer :: "game \<Rightarrow> game" where
  "startTimer st =
     (let (h, st1) = setInterval ClockInterval st in st1\<lparr>gameTimer := Some h\<rparr>)"

definition startTargetSpawning :: "game \<Rightarrow> game" where
  "startTargetSpawning st =
     (let (h, st1) = setInterval SpawnInterval st in st1\<lparr>targetSpawnTimer := Some h\<rparr>)"

definition startGame :: "game \<Rightarrow> game" where
  "startGame st =
     (if isPlaying st then st
      else startTargetSpawning
             (startTimer ((resetGameState st)\<lparr>isPlaying := True, isPaused := False\<rparr>)))"

definition pauseGame :: "game \<Rightarrow> game" where
  "pauseGame st = clearInterval (targetSpawnTimer st) (clearInterval (gameTimer st) st)"

definition resumeGame :: "game \<Rightarrow> game" where
  "resumeGame st = startTargetSpawning (startTimer st)"

definition togglePause :: "game \<Rightarrow> game" where
  "togglePause st =
     (if \<not> isPlaying st then st
      else (let st1 = st\<lparr>isPaused := \<not> isPaused st\<rparr>
            in if isPaused st1 then pauseGame st1 else resumeGame st1))"

definition stopGame :: "game \<Rightarrow> game" where
  "stopGame st =
     (if \<not> isPlaying st then st
      else (let st1 = st\<lparr>isPlaying := False, isPaused := False\<rparr>;
                st2 = clearInterval (gameTimer st1) st1;
                st3 = clearInterval (targetSpawnTimer st2) st2
            in st3\<lparr>activeTargets := []\<rparr>))"

text \<open>
  \<open>resetGame\<close> ends with the call \<open>render()\<close>. The only function of that name is a
  constant local to \<open>startRendering\<close>, out of scope here, and no script of the page
  defines a global one: once the state has been reset, the call raises
  \<open>ReferenceError\<close>.
\<close>

definition resetGame :: "game \<Rightarrow> result" where
  "resetGame st = Inl (ReferenceError, resetGameState (stopGame st))"

section \<open>Leaderboard\<close>

fun difficulty_name :: "difficulty \<Rightarrow> string" where
  "difficulty_name easy = ''easy''"
| "difficulty_name normal = ''normal''"
| "difficulty_name hard = ''hard''"
| "difficulty_name expert = ''expert''"

fun mode_name :: "mode \<Rightarrow> string" where
  "mode_name timed = ''timed''"
| "mode_name endless = ''endless''"

text \<open>The object literal built by \<open>saveToLeaderboard\<close>; \<open>date\<close> is the ISO string of the clock.\<close>

definition entry :: "string \<Rightarrow> game \<Rightarrow> jsvalue" where
  "entry date st =
     JObj [(''score'', JNum (of_int (score st))),
           (''accuracy'', JNum (of_int (accuracy st))),
           (''difficulty'', JStr (difficulty_name (currentDifficulty st))),
           (''mode'', JStr (mode_name (currentMode st))),
           (''date'', JStr date)]"

text \<open>The number that \<open>a.score\<close> reads from an array element, when it reads a number.\<close>

fun score_of :: "jsvalue \<Rightarrow> rat option" where
  "score_of (JObj kvs) =
     (case map_of kvs ''score'' of Some (JNum r) \<Rightarrow> Some r | _ \<Rightarrow> None)"
| "score_of _ = None"

text \<open>
  \<open>Array.prototype.sort\<close> with the comparator \<open>(a, b) => b.score - a.score\<close>: a stable
  sort (ECMAScript 2019) into descending order of \<open>score\<close>. The language fixes the
  resulting order only when the comparator is consistent, so the model uses it only on
  arrays whose elements all carry a numeric \<open>score\<close>; on any other array
  \<open>saveToLeaderboard\<close> stops with \<open>SortOrderUnspecified\<close>.
\<close>

definition Array_sort :: "jsvalue list \<Rightarrow> jsvalue list" where
  "Array_sort xs = sort_key (\<lambda>v. - the (score_of v)) xs"

fun JSON_parse :: "item \<Rightarrow> error + jsvalue" where
  "JSON_parse (NotJSON s) = Inl SyntaxError"
| "JSON_parse (JSONText v) = Inr v"

definition loadLeaderboard :: "game \<Rightarrow> result" where
  "loadLeaderboard st =
     (case storage st of
        None \<Rightarrow> Inr st
      | Some saved \<Rightarrow>
          if saved = NotJSON [] then Inr st
          else (case JSON_parse saved of
                  Inl e \<Rightarrow> Inl (e, st)
                | Inr v \<Rightarrow> Inr (st\<lparr>leaderboard := v\<rparr>)))"

definition saveToLeaderboard :: "string \<Rightarrow> game \<Rightarrow> result" where
  "saveToLeaderboard date st =
     (case leaderboard st of
        JArr xs \<Rightarrow>
          (let pushed = xs @ [entry date st]
           in if list_all (\<lambda>v. score_of v \<noteq> None) pushed
              then (let lb = JArr (take 10 (Array_sort pushed))
                    in Inr (st\<lparr>leaderboard := lb, storage := Some (JSONText lb)\<rparr>))
              else Inl (SortOrderUnspecified, st\<lparr>leaderboard := JArr pushed\<rparr>))
      | _ \<Rightarrow> Inl (TypeError, st))"

definition init :: "game \<Rightarrow> result" where
  "init st =
     (if isInitialized st then Inr st
      else (case loadLeaderboard st of
              Inl (e, st1) \<Rightarrow> Inl (e, st1)
            | Inr st1 \<Rightarrow> Inr (st1\<lparr>isInitialized := True\<rparr>)))"

definition endGame :: "string \<Rightarrow> game \<Rightarrow> result" where
  "endGame date st = saveToLeaderboard date (calculateFinalScore (stopGame st))"

section \<open>Targets\<close>

definition inside :: "real \<Rightarrow> real \<Rightarrow> target \<Rightarrow> bool" where
  "inside px py t = (sqrt ((px - tx t)\<^sup>2 + (py - ty t)\<^sup>2) \<le> radius t)"

text \<open>
  The loop of \<open>checkTargetHit\<close>, from index \<open>n - 1\<close> down to \<open>0\<close>. The result is the index
  of the target object that the source returns, \<open>None\<close> for \<open>null\<close>.
\<close>

fun checkTargetHit_loop :: "nat \<Rightarrow> real \<Rightarrow> real \<Rightarrow> target list \<Rightarrow> nat option" where
  "checkTargetHit_loop 0 px py ts = None"
| "checkTargetHit_loop (Suc i) px py ts =
     (if inside px py (ts ! i) then Some i else checkTargetHit_loop i px py ts)"

definition checkTargetHit :: "real \<Rightarrow> real \<Rightarrow> target list \<Rightarrow> nat option" where
  "checkTargetHit px py ts = checkTargetHit_loop (length ts) px py ts"

text \<open>\<open>Array.prototype.findIndex\<close> (\<open>None\<close> for \<open>-1\<close>) and \<open>splice(index, 1)\<close>.\<close>

fun findIndex :: "('a \<Rightarrow> bool) \<Rightarrow> 'a list \<Rightarrow> nat option" where
  "findIndex p [] = None"
| "findIndex p (a # as) =
     (if p a then Some 0 else map_option Suc (findIndex p as))"

definition splice1 :: "nat \<Rightarrow> 'a list \<Rightarrow> 'a list" where
  "splice1 i xs = take i xs @ drop (Suc i) xs"

text \<open>The values that a spawn or a clock callback reads from the host when it runs.\<close>

record host_input =
  now_id :: int
  now_spawn :: int
  random_id :: rat
  random_x :: real
  random_y :: real
  iso_date :: string

definition spawnTarget :: "host_input \<Rightarrow> game \<Rightarrow> game" where
  "spawnTarget inp st =
     (if \<not> isPlaying st \<or> isPaused st then st
      else (let size = targetSize (currentDifficulty st);
                t = \<lparr> tid = double (of_int (now_id inp) + random_id inp),
                      tx = random_x inp * (canvasWidth st - size * 2) + size,
                      ty = random_y inp * (canvasHeight st - size * 2) + size,
                      radius = size,
                      spawnTime = now_spawn inp,
                      lifetime = targetLifetime (currentDifficulty st),
                      isHover = False,
                      opacity = 1 \<rparr>;
                st1 = st\<lparr>activeTargets := activeTargets st @ [t]\<rparr>
            in snd (setTimeout (ExpiryTimeout (tid t)) st1)))"

text \<open>The callback that \<open>spawnTarget\<close> hands to \<open>setTimeout\<close>, for the target with id \<open>i\<close>.\<close>

definition spawnTarget_timeout :: "rat \<Rightarrow> game \<Rightarrow> game" where
  "spawnTarget_timeout i st =
     (case findIndex (\<lambda>t. tid t = i) (activeTargets st) of
        None \<Rightarrow> st
      | Some index \<Rightarrow>
          updateAccuracy
            (st\<lparr>activeTargets := splice1 index (activeTargets st),
                targetsMissed := Suc (targetsMissed st)\<rparr>))"

definition hitTarget :: "target \<Rightarrow> game \<Rightarrow> game" where
  "hitTarget t st =
     (let st1 = (case findIndex (\<lambda>u. tid u = tid t) (activeTargets st) of
                   None \<Rightarrow> st
                 | Some index \<Rightarrow> st\<lparr>activeTargets := splice1 index (activeTargets st)\<rparr>);
          st2 = st1\<lparr>targetsHit := Suc (targetsHit st1)\<rparr>;
          st3 = st2\<lparr>score := score st2 + 10 * scoreMultiplier (currentDifficulty st2)\<rparr>
      in updateAccuracy st3)"

text \<open>
  In \<open>handleCanvasClick\<close> the result of \<open>checkTargetHit\<close> is bound to a local constant
  named \<open>hitTarget\<close>, which hides the function \<open>hitTarget\<close> inside the handler. When a
  target is found, the call \<open>hitTarget(hitTarget)\<close> therefore applies the target object
  itself, and the handler raises \<open>TypeError\<close> before any variable has changed.
\<close>

definition handleCanvasClick :: "real \<Rightarrow> real \<Rightarrow> game \<Rightarrow> result" where
  "handleCanvasClick px py st =
     (if \<not> isPlaying st \<or> isPaused st then Inr st
      else (case checkTargetHit px py (activeTargets st) of
              Some i \<Rightarrow> Inl (TypeError, st)
            | None \<Rightarrow> Inr (updateAccuracy (st\<lparr>targetsMissed := Suc (targetsMissed st)\<rparr>))))"

definition handleCanvasMouseMove :: "real \<Rightarrow> real \<Rightarrow> game \<Rightarrow> game" where
  "handleCanvasMouseMove px py st =
     (if \<not> isPlaying st \<or> isPaused st then st
      else (let hoverTarget = checkTargetHit px py (activeTargets st)
            in st\<lparr>activeTargets :=
                     map (\<lambda>(i, t). t\<lparr>isHover := (Some i = hoverTarget)\<rparr>)
                       (enumerate 0 (activeTargets st))\<rparr>))"

section \<open>Timer callbacks and events\<close>

text \<open>The callback of the interval that \<open>startTimer\<close> registers.\<close>

definition startTimer_interval :: "string \<Rightarrow> game \<Rightarrow> result" where
  "startTimer_interval date st =
     (if currentMode st = timed
      then (let st1 = st\<lparr>timeLeft := timeLeft st - 1\<rparr>
            in if timeLeft st1 \<le> 0 then endGame date st1 else Inr st1)
      else Inr (st\<lparr>timeLeft := timeLeft st + 1\<rparr>))"

text \<open>
  The host runs the task registered under handle \<open>h\<close>. A handle that is not in the table
  has been cleared (or has fired, for a timeout): nothing runs. A timeout leaves the table
  when it fires, an interval stays.
\<close>

definition fire_timer :: "nat \<Rightarrow> host_input \<Rightarrow> game \<Rightarrow> result" where
  "fire_timer h inp st =
     (case map_of (timers st) h of
        None \<Rightarrow> Inr st
      | Some ClockInterval \<Rightarrow> startTimer_interval (iso_date inp) st
      | Some SpawnInterval \<Rightarrow> Inr (spawnTarget inp st)
      | Some (ExpiryTimeout i) \<Rightarrow>
          Inr (spawnTarget_timeout i
                 (st\<lparr>timers := filter (\<lambda>e. fst e \<noteq> h) (timers st)\<rparr>)))"

datatype key = Space | Escape | KeyR | OtherKey

definition handleKeydown :: "key \<Rightarrow> game \<Rightarrow> result" where
  "handleKeydown k st =
     (case k of
        Space \<Rightarrow> Inr (if isPlaying st then togglePause st else startGame st)
      | Escape \<Rightarrow> Inr (if isPlaying st \<and> \<not> isPaused st then togglePause st else st)
      | KeyR \<Rightarrow> if \<not> isPlaying st then resetGame st else Inr st
      | OtherKey \<Rightarrow> Inr st)"

definition handleVisibilityChange :: "bool \<Rightarrow> game \<Rightarrow> game" where
  "handleVisibilityChange hidden st =
     (if hidden \<and> isPlaying st \<and> \<not> isPaused st then togglePause st else st)"

definition handleDifficultyChange :: "difficulty \<Rightarrow> game \<Rightarrow> game" where
  "handleDifficultyChange d st = (if \<not> isPlaying st then st\<lparr>currentDifficulty := d\<rparr> else st)"

definition handleModeChange :: "mode \<Rightarrow> game \<Rightarrow> game" where
  "handleModeChange m st = (if \<not> isPlaying st then st\<lparr>currentMode := m\<rparr> else st)"

text \<open>
  Everything that can run code of the module: its initialisation by the page, the
  listeners bound by \<open>bindEvents\<close>, the timers, and the functions exported by the module.
\<close>

datatype event =
    Call_init
  | StartButton
  | PauseButton
  | ResetButton
  | CanvasClick real real
  | CanvasMouseMove real real
  | Keydown key
  | VisibilityChange bool
  | DifficultyChange difficulty
  | ModeChange mode
  | TimerFires nat host_input
  | Call_pauseGame
  | Call_resumeGame
  | Call_endGame string

fun deliver :: "event \<Rightarrow> game \<Rightarrow> result" where
  "deliver Call_init st = init st"
| "deliver StartButton st = Inr (startGame st)"
| "deliver PauseButton st = Inr (togglePause st)"
| "deliver ResetButton st = resetGame st"
| "deliver (CanvasClick px py) st = handleCanvasClick px py st"
| "deliver (CanvasMouseMove px py) st = Inr (handleCanvasMouseMove px py st)"
| "deliver (Keydown k) st = handleKeydown k st"
| "deliver (VisibilityChange hidden) st = Inr (handleVisibilityChange hidden st)"
| "deliver (DifficultyChange d) st = Inr (handleDifficultyChange d st)"
| "deliver (ModeChange m) st = Inr (handleModeChange m st)"
| "deliver (TimerFires h inp) st = fire_timer h inp st"
| "deliver Call_pauseGame st = Inr (pauseGame st)"
| "deliver Call_resumeGame st = Inr (resumeGame st)"
| "deliver (Call_endGame date) st = endGame date st"

text \<open>An exception ends the handler; the page goes on with the state as it is then.\<close>

fun run :: "event list \<Rightarrow> game \<Rightarrow> game" where
  "run [] st = st"
| "run (ev # evs) st = run evs (state_of (deliver ev st))"

section \<open>The accuracy of the specification\<close>

text \<open>
  The specification's words: accuracy is \<open>round(100 \<times> hits / (hits + misses))\<close>, and
  \<open>100\<close> when no attempt has been made.
\<close>

definition spec_accuracy :: "nat \<Rightarrow> nat \<Rightarrow> int" where
  "spec_accuracy hits missed =
     (if hits + missed > 0
      then round (100 * of_nat hits / of_nat (hits + missed) :: rat)
      else 100)"

text \<open>
  The percentage \<open>100 \<times> hits / (hits + misses)\<close> lies half-way between two integers.
\<close>

definition half_way :: "nat \<Rightarrow> nat \<Rightarrow> bool" where
  "half_way hits missed = ((200 * hits + (hits + missed)) mod (2 * (hits + missed)) = 0)"

text \<open>The accuracy is up to date: it is the value that \<open>updateAccuracy\<close> computes.\<close>

definition accuracy_ok :: "game \<Rightarrow> bool" where
  "accuracy_ok st = (accuracy st = accuracy (updateAccuracy st))"

definition counters :: "game \<Rightarrow> nat \<times> nat \<times> int" where
  "counters st = (targetsHit st, targetsMissed st, accuracy st)"

section \<open>Observations of a session\<close>

text \<open>
  The part of the state that the specification calls the session and its results: state,
  score, time, counters, accuracy, active targets and the leaderboard with its stored copy.
\<close>

definition session_view ::
  "game \<Rightarrow> bool \<times> bool \<times> int \<times> int \<times> nat \<times> nat \<times> int \<times> target list \<times> jsvalue \<times> item option" where
  "session_view st =
     (isPlaying st, isPaused st, score st, timeLeft st, targetsHit st, targetsMissed st,
      accuracy st, activeTargets st, leaderboard st, storage st)"

fun is_timer :: "event \<Rightarrow> bool" where
  "is_timer (TimerFires h inp) = True"
| "is_timer ev = False"

text \<open>
  The number of targets that leave the active set, through a click or through a timer,
  while the events of a list are delivered one after the other.
\<close>

fun resolves :: "event \<Rightarrow> bool" where
  "resolves (CanvasClick px py) = True"
| "resolves (TimerFires h inp) = True"
| "resolves ev = False"

fun left_active :: "event list \<Rightarrow> game \<Rightarrow> nat" where
  "left_active [] st = 0"
| "left_active (ev # evs) st =
     (let st1 = state_of (deliver ev st)
      in (if resolves ev then length (activeTargets st) - length (activeTargets st1) else 0)
         + left_active evs st1)"

text \<open>
  What the miss counter counts. \<open>miss_events\<close> is the number of misses that an event
  brings: one for a click on the running session that lands on no target, and the number
  of targets (none or one) that leave the active set when an expiry timeout fires.
  \<open>restarts\<close> tells whether the event resets the counters, by starting or resetting a
  session. \<open>misses_since_restart\<close> adds the misses up along a list of events, starting
  again from 0 at each restart.
\<close>

fun miss_events :: "event \<Rightarrow> game \<Rightarrow> nat" where
  "miss_events (CanvasClick px py) st =
     (if isPlaying st \<and> \<not> isPaused st \<and> checkTargetHit px py (activeTargets st) = None
      then 1 else 0)"
| "miss_events (TimerFires h inp) st =
     (case map_of (timers st) h of
        Some (ExpiryTimeout i) \<Rightarrow>
          length (activeTargets st) - length (activeTargets (state_of (fire_timer h inp st)))
      | _ \<Rightarrow> 0)"
| "miss_events ev st = 0"

fun restarts :: "event \<Rightarrow> game \<Rightarrow> bool" where
  "restarts StartButton st = (\<not> isPlaying st)"
| "restarts ResetButton st = True"
| "restarts (Keydown k) st = (\<not> isPlaying st \<and> (k = Space \<or> k = KeyR))"
| "restarts ev st = False"

fun misses_since_restart :: "event list \<Rightarrow> game \<Rightarrow> nat \<Rightarrow> nat" where
  "misses_since_restart [] st n = n"
| "misses_since_restart (ev # evs) st n =
     misses_since_restart evs (state_of (deliver ev st))
       (if restarts ev st then 0 else n + miss_events ev st)"

section \<open>Timers that the module keeps track of\<close>

text \<open>
  The module remembers one handle for the clock and one for the spawner, and none for the
  expiry timeouts. \<open>handles_tracked\<close> says that the remembered handles are the ones in the
  timer table: every handle has been allocated, an entry is the clock interval exactly when
  its handle is in \<open>gameTimer\<close>, and the spawn interval exactly when it is in
  \<open>targetSpawnTimer\<close>. \<open>timers_tracked\<close> adds that intervals exist only while the
  session runs unpaused, and targets only while it is playing.
\<close>

definition no_intervals :: "(nat \<times> task) list \<Rightarrow> bool" where
  "no_intervals ts = list_all (\<lambda>e. snd e \<noteq> ClockInterval \<and> snd e \<noteq> SpawnInterval) ts"

definition handles_tracked :: "game \<Rightarrow> bool" where
  "handles_tracked st =
     (list_all
        (\<lambda>e. fst e < nextHandle st
             \<and> (snd e = ClockInterval) = (gameTimer st = Some (fst e))
             \<and> (snd e = SpawnInterval) = (targetSpawnTimer st = Some (fst e)))
        (timers st)
      \<and> pred_option (\<lambda>h. h < nextHandle st) (gameTimer st)
      \<and> pred_option (\<lambda>h. h < nextHandle st) (targetSpawnTimer st))"

definition timers_tracked :: "game \<Rightarrow> bool" where
  "timers_tracked st =
     (handles_tracked st
      \<and> (isPlaying st \<and> \<not> isPaused st \<or> no_intervals (timers st))
      \<and> (isPlaying st \<or> activeTargets st = []))"

section \<open>Callbacks of an earlier session\<close>

text \<open>
  Timer handles are allocated in increasing order, so the callbacks scheduled before some
  moment are those with a handle below the value \<open>n\<close> that \<open>nextHandle\<close> had then:
  \<open>is_stale n\<close> holds for the firing of such a timer, and \<open>forget_before n\<close> removes these
  timers from the table. \<open>pending_ids\<close> lists the target ids of the expiry timeouts in a
  timer table. \<open>ids_fresh ids evs st\<close> says that, while the events \<open>evs\<close> are delivered from
  \<open>st\<close>, no active target ever has one of the given ids.
\<close>

fun is_stale :: "nat \<Rightarrow> event \<Rightarrow> bool" where
  "is_stale n (TimerFires h inp) = (h < n)"
| "is_stale n ev = False"

definition forget_before :: "nat \<Rightarrow> game \<Rightarrow> game" where
  "forget_before n st = st\<lparr>timers := filter (\<lambda>e. n \<le> fst e) (timers st)\<rparr>"

fun pending_ids :: "(nat \<times> task) list \<Rightarrow> rat list" where
  "pending_ids [] = []"
| "pending_ids ((h, ExpiryTimeout i) # ts) = i # pending_ids ts"
| "pending_ids (e # ts) = pending_ids ts"

fun ids_fresh :: "rat list \<Rightarrow> event list \<Rightarrow> game \<Rightarrow> bool" where
  "ids_fresh ids [] st = list_all (\<lambda>t. tid t \<notin> set ids) (activeTargets st)"
| "ids_fresh ids (ev # evs) st =
     (list_all (\<lambda>t. tid t \<notin> set ids) (activeTargets st)
      \<and> ids_fresh ids evs (state_of (deliver ev st)))"

text \<open>
  Two notions for the proofs. \<open>stale_expiries n ids st\<close>: the timers below \<open>n\<close> that are
  left in the table are expiry timeouts for the given ids. \<open>alike n a a' b'\<close>: a handler
  that takes \<open>a\<close> to \<open>a'\<close> takes the state without the timers below \<open>n\<close> to \<open>b'\<close>, which
  is \<open>a'\<close> without these timers, and the timers it adds have fresh handles.
\<close>

definition stale_expiries :: "nat \<Rightarrow> rat list \<Rightarrow> game \<Rightarrow> bool" where
  "stale_expiries n ids st =
     (n \<le> nextHandle st
      \<and> list_all (\<lambda>e. fst e < n \<longrightarrow> (\<exists>i \<in> set ids. snd e = ExpiryTimeout i)) (timers st))"

definition alike :: "nat \<Rightarrow> game \<Rightarrow> game \<Rightarrow> game \<Rightarrow> bool" where
  "alike n a a' b' =
     (forget_before n a' = b' \<and> nextHandle a \<le> nextHandle a'
      \<and> (\<forall>e \<in> set (timers a'). e \<in> set (timers a) \<or> nextHandle a \<le> fst e))"

section \<open>Leaderboards of entries\<close>

text \<open>
  An array whose elements all carry a numeric \<open>score\<close>, and such an array in descending
  order of \<open>score\<close>.
\<close>

definition scored :: "jsvalue list \<Rightarrow> bool" where
  "scored xs = list_all (\<lambda>v. score_of v \<noteq> None) xs"

definition descending :: "jsvalue list \<Rightarrow> bool" where
  "descending xs = sorted_wrt (\<lambda>a b. the (score_of a) \<ge> the (score_of b)) xs"

text \<open>
  A driver for the scenario of the specification: one session result is recorded per
  element of the list, with the score the session ended with and the date of the record.
\<close>

fun record_sessions :: "(int \<times> string) list \<Rightarrow> game \<Rightarrow> result" where
  "record_sessions [] st = Inr st"
| "record_sessions ((sc, date) # rest) st =
     (case saveToLeaderboard date (st\<lparr>score := sc\<rparr>) of
        Inl err \<Rightarrow> Inl err
      | Inr st1 \<Rightarrow> record_sessions rest st1)"

section \<open>Scenarios\<close>

text \<open>
  The scenario of the specification: difficulty \<open>normal\<close>, mode \<open>timed\<close>, a canvas of
  800 by 600, nothing stored, and spawns whose random numbers put the target at
  \<open>(100, 100)\<close>. After \<open>startGame\<close> the clock interval has handle 1 and the spawn interval
  handle 2; the expiry timeout of the first target has handle 3.
\<close>

definition spawn_first :: host_input where
  "spawn_first =
     \<lparr> now_id = 1000, now_spawn = 1000, random_id = 1 / 2, random_x = 1 / 14,
       random_y = 1 / 10, iso_date = ''2024-01-01T00:00:01.000Z'' \<rparr>"

definition spawn_second :: host_input where
  "spawn_second =
     \<lparr> now_id = 2000, now_spawn = 2000, random_id = 1 / 4, random_x = 1 / 14,
       random_y = 1 / 10, iso_date = ''2024-01-01T00:00:02.000Z'' \<rparr>"

definition fresh_page :: game where
  "fresh_page = initial_game 800 600 None"

definition one_target_session :: game where
  "one_target_session = run [Call_init, StartButton, TimerFires 2 spawn_first] fresh_page"

definition two_target_session :: game where
  "two_target_session =
     run [Call_init, StartButton, TimerFires 2 spawn_first, TimerFires 2 spawn_second] fresh_page"

definition paused_session :: game where
  "paused_session = run [Call_init, StartButton, PauseButton] fresh_page"

definition paused_with_target :: game where
  "paused_with_target = run [Call_init, StartButton, TimerFires 2 spawn_first, PauseButton] fresh_page"

definition missed_click_session :: game where
  "missed_click_session = run [Call_init, StartButton, CanvasClick 0 0] fresh_page"

text \<open>
  The page after a reset of the session with one target, whose expiry timeout (handle 3)
  is still pending, and the events of a new session: it starts (clock 4, spawner 5), spawns
  a target (expiry timeout 6), then the old expiry timeout and the old clock fire, and a
  click misses.
\<close>

definition after_reset :: game where
  "after_reset = state_of (resetGame one_target_session)"

definition new_session_events :: "event list" where
  "new_session_events =
     [StartButton, TimerFires 5 spawn_second, TimerFires 3 spawn_second, TimerFires 1 spawn_second,
      CanvasClick 0 0]"

text \<open>A timed session after 29 ticks of its clock.\<close>

definition last_second :: game where
  "last_second = run (Call_init # StartButton # replicate 29 (TimerFires 1 spawn_first)) fresh_page"

text \<open>A page on which the exported \<open>resumeGame\<close> was called while no session was playing.\<close>

definition stale_spawner_page :: game where
  "stale_spawner_page = run [Call_init, Call_resumeGame] fresh_page"

text \<open>Pages with a stored text that is not JSON, and with a stored object.\<close>

definition corrupt_page :: game where
  "corrupt_page = initial_game 800 600 (Some (NotJSON ''{not json''))"

definition wrong_shape_page :: game where
  "wrong_shape_page = initial_game 800 600 (Some (JSONText (JObj [(''best'', JNum 120)])))"

text \<open>Eleven results with increasing scores, and a leaderboard of two entries with one score.\<close>

definition eleven_sessions :: "(int \<times> string) list" where
  "eleven_sessions =
     [(10, ''d01''), (20, ''d02''), (30, ''d03''), (40, ''d04''), (50, ''d05''), (60, ''d06''),
      (70, ''d07''), (80, ''d08''), (90, ''d09''), (100, ''d10''), (110, ''d11'')]"

definition tie_page :: game where
  "tie_page =
     fresh_page\<lparr>score := 50,
       leaderboard := JArr [entry ''d01'' (fresh_page\<lparr>score := 50\<rparr>),
                            entry ''d02'' (fresh_page\<lparr>score := 50\<rparr>)]\<rparr>"

section \<open>Facts about the model\<close>

lemma state_of_simps [simp]:
  "state_of (Inl (e, st)) = st"
  "state_of (Inr st) = st"
  by (simp_all add: state_of_def)

text \<open>The distance test without the square root, for evaluation.\<close>

lemma inside_code [code]:
  "inside px py t = (0 \<le> radius t \<and> (px - tx t)\<^sup>2 + (py - ty t)\<^sup>2 \<le> (radius t)\<^sup>2)"
proof -
  have nn: "0 \<le> (px - tx t)\<^sup>2 + (py - ty t)\<^sup>2" by simp
  show ?thesis
    unfolding inside_def
  proof
    assume le: "sqrt ((px - tx t)\<^sup>2 + (py - ty t)\<^sup>2) \<le> radius t"
    have "0 \<le> sqrt ((px - tx t)\<^sup>2 + (py - ty t)\<^sup>2)" using nn by (rule real_sqrt_ge_zero)
    with le have "0 \<le> radius t" by linarith
    moreover from le have "(px - tx t)\<^sup>2 + (py - ty t)\<^sup>2 \<le> (radius t)\<^sup>2" by (rule sqrt_le_D)
    ultimately show "0 \<le> radius t \<and> (px - tx t)\<^sup>2 + (py - ty t)\<^sup>2 \<le> (radius t)\<^sup>2" by simp
  next
    assume "0 \<le> radius t \<and> (px - tx t)\<^sup>2 + (py - ty t)\<^sup>2 \<le> (radius t)\<^sup>2"
    then show "sqrt ((px - tx t)\<^sup>2 + (py - ty t)\<^sup>2) \<le> radius t"
      by (simp add: real_le_lsqrt)
  qed
qed

lemma Math_round_is_round: "Math_round q = round q"
  by (simp add: Math_round_def round_def)

subsection \<open>Doubles\<close>

lemma double_0 [simp]: "double 0 = 0"
  by (simp add: double_def)

lemma double_1 [simp]: "double 1 = 1"
  by code_simp

lemma double_100 [simp]: "double 100 = 100"
  by code_simp

text \<open>The ids of the scenarios are doubles.\<close>

lemma double_scenario_ids [simp]:
  "double (2001 / 2) = 2001 / 2"
  "double (8001 / 4) = 8001 / 4"
  by code_simp+

lemma binade_bounds:
  assumes "0 < x"
  shows "2 powi binade x \<le> x" and "x < 2 powi (binade x + 1)"
proof -
  show "2 powi binade x \<le> x"
  proof (cases "1 \<le> x")
    case True
    then have pos: "0 < \<lfloor>x\<rfloor>" by simp
    from bitlen_bounds [OF pos] have b: "2 ^ nat (bitlen \<lfloor>x\<rfloor> - 1) \<le> \<lfloor>x\<rfloor>" by simp
    have ge: "1 \<le> bitlen \<lfloor>x\<rfloor>" using pos by (simp add: bitlen_alt_def)
    have "(2::rat) powi (bitlen \<lfloor>x\<rfloor> - 1) = 2 ^ nat (bitlen \<lfloor>x\<rfloor> - 1)"
      using ge by (simp add: power_int_def)
    also have "\<dots> = of_int (2 ^ nat (bitlen \<lfloor>x\<rfloor> - 1))" by simp
    also have "\<dots> \<le> of_int \<lfloor>x\<rfloor>" using b by (simp only: of_int_le_iff)
    also have "\<dots> \<le> x" by simp
    finally show ?thesis using True by (simp add: binade_def)
  next
    case False
    let ?n = "\<lceil>1 / x\<rceil> - 1"
    from False assms have "1 < 1 / x" by simp
    then have pos: "0 < ?n" by simp
    from bitlen_bounds [OF pos] have "?n < 2 ^ nat (bitlen ?n)" by simp
    then have "\<lceil>1 / x\<rceil> \<le> 2 ^ nat (bitlen ?n)" by simp
    then have "(of_int \<lceil>1 / x\<rceil> :: rat) \<le> of_int (2 ^ nat (bitlen ?n))"
      by (simp only: of_int_le_iff)
    moreover have "1 / x \<le> of_int \<lceil>1 / x\<rceil>" by (rule le_of_int_ceiling)
    moreover have "(of_int (2 ^ nat (bitlen ?n)) :: rat) = 2 ^ nat (bitlen ?n)" by simp
    ultimately have "1 / x \<le> 2 ^ nat (bitlen ?n)" by linarith
    then have "1 / 2 ^ nat (bitlen ?n) \<le> x"
      using assms by (simp add: field_simps)
    moreover have ge: "0 \<le> bitlen ?n" by (simp add: bitlen_alt_def)
    then have "(2::rat) powi (- bitlen ?n) = 1 / 2 ^ nat (bitlen ?n)"
      by (simp add: power_int_def field_simps)
    ultimately show ?thesis using False by (simp add: binade_def)
  qed
  show "x < 2 powi (binade x + 1)"
  proof (cases "1 \<le> x")
    case True
    then have pos: "0 < \<lfloor>x\<rfloor>" by simp
    from bitlen_bounds [OF pos] have b: "\<lfloor>x\<rfloor> + 1 \<le> 2 ^ nat (bitlen \<lfloor>x\<rfloor>)" by simp
    have ge: "1 \<le> bitlen \<lfloor>x\<rfloor>" using pos by (simp add: bitlen_alt_def)
    have "x < of_int (\<lfloor>x\<rfloor> + 1)" by linarith
    also have "\<dots> \<le> of_int (2 ^ nat (bitlen \<lfloor>x\<rfloor>))" using b by (simp only: of_int_le_iff)
    also have "\<dots> = 2 ^ nat (bitlen \<lfloor>x\<rfloor>)" by simp
    also have "\<dots> = (2::rat) powi (bitlen \<lfloor>x\<rfloor>)"
      using ge by (simp add: power_int_def)
    finally show ?thesis using True by (simp add: binade_def)
  next
    case False
    let ?n = "\<lceil>1 / x\<rceil> - 1"
    from False assms have "1 < 1 / x" by simp
    then have pos: "0 < ?n" by simp
    have ge: "1 \<le> bitlen ?n" using pos by (simp add: bitlen_alt_def)
    from bitlen_bounds [OF pos] have "2 ^ nat (bitlen ?n - 1) \<le> ?n" by simp
    then have "(of_int (2 ^ nat (bitlen ?n - 1)) :: rat) \<le> of_int ?n"
      by (simp only: of_int_le_iff)
    moreover have "of_int ?n < 1 / x" by linarith
    moreover have "(of_int (2 ^ nat (bitlen ?n - 1)) :: rat) = 2 ^ nat (bitlen ?n - 1)" by simp
    ultimately have "2 ^ nat (bitlen ?n - 1) < 1 / x" by linarith
    then have "x < 1 / 2 ^ nat (bitlen ?n - 1)"
      using assms by (simp add: field_simps)
    moreover have "(2::rat) powi (- bitlen ?n + 1) = 1 / 2 ^ nat (bitlen ?n - 1)"
    proof -
      have "- bitlen ?n + 1 = - int (nat (bitlen ?n - 1))" using ge by simp
      then have "(2::rat) powi (- bitlen ?n + 1) = 2 powi (- int (nat (bitlen ?n - 1)))" by simp
      also have "\<dots> = 1 / 2 ^ nat (bitlen ?n - 1)"
        by (simp only: power_int_minus_divide power_int_of_nat)
      finally show ?thesis .
    qed
    ultimately show ?thesis using False by (simp add: binade_def)
  qed
qed

lemma round_half_even_error: "\<bar>of_int (round_half_even r) - r\<bar> \<le> 1 / 2"
proof -
  define n where "n = \<lfloor>r\<rfloor>"
  have lo: "of_int n \<le> r" and hi: "r < of_int n + 1"
    unfolding n_def by linarith+
  consider "r - of_int n < 1 / 2" | "1 / 2 < r - of_int n" | "r - of_int n = 1 / 2"
    by linarith
  then show ?thesis
  proof cases
    case 1
    then have "round_half_even r = n"
      by (simp add: round_half_even_def Let_def n_def)
    with 1 lo show ?thesis by simp
  next
    case 2
    then have "round_half_even r = n + 1"
      by (simp add: round_half_even_def Let_def n_def)
    with 2 hi show ?thesis by simp
  next
    case 3
    then have "round_half_even r = n \<or> round_half_even r = n + 1"
      by (simp add: round_half_even_def Let_def n_def)
    with 3 show ?thesis by auto
  qed
qed

lemma double_error:
  assumes "0 < x"
  shows "\<bar>double x - x\<bar> \<le> x / 2 ^ 53"
proof -
  let ?u = "(2::rat) powi (binade x - 52)"
  have upos: "0 < ?u" by simp
  have u: "?u = 2 powi binade x / 2 ^ 52"
    by (simp add: power_int_diff)
  have "double x - x = (of_int (round_half_even (x / ?u)) - x / ?u) * ?u"
    using assms upos by (simp add: double_def Let_def field_simps)
  then have "\<bar>double x - x\<bar> = \<bar>of_int (round_half_even (x / ?u)) - x / ?u\<bar> * ?u"
    using upos by (simp add: abs_mult)
  also have "\<dots> \<le> 1 / 2 * ?u"
    using round_half_even_error [of "x / ?u"] upos by (intro mult_right_mono) simp_all
  also have "\<dots> = 2 powi binade x / 2 ^ 53"
    by (simp add: u)
  also have "\<dots> \<le> x / 2 ^ 53"
    using binade_bounds(1) [OF assms] by (simp add: divide_right_mono)
  finally show ?thesis .
qed


lemma double_nonneg:
  assumes "0 \<le> x"
  shows "0 \<le> double x"
proof (cases "x = 0")
  case True
  then show ?thesis by simp
next
  case False
  with assms have pos: "0 < x" by simp
  have "x / 2 ^ 53 \<le> x" using pos by (simp add: field_simps)
  with double_error [OF pos] show ?thesis by linarith
qed

text \<open>The error of the double computation \<open>(h / t) * 100\<close>.\<close>

lemma percent_error:
  assumes "0 < t" and "h \<le> t"
  shows "\<bar>double (double (of_nat h / of_nat t) * 100) - 100 * of_nat h / of_nat t\<bar> < 1 / 2 ^ 45"
proof (cases "h = 0")
  case True
  then show ?thesis by simp
next
  case False
  define q :: rat where "q = of_nat h / of_nat t"
  define y where "y = double q * 100"
  have tpos: "(0::rat) < of_nat t" using assms(1) by simp
  have qpos: "0 < q" using False assms(1) by (simp add: q_def)
  have "(of_nat h :: rat) \<le> of_nat t" using assms(2) by simp
  then have q1: "q \<le> 1" using tpos by (simp add: q_def field_simps)
  have e1: "\<bar>double q - q\<bar> \<le> q / 2 ^ 53" using qpos by (rule double_error)
  have "q / 2 ^ 53 \<le> 1 / 2 ^ 53" using q1 by (simp add: divide_right_mono)
  with e1 have e1': "\<bar>double q - q\<bar> \<le> 1 / 2 ^ 53" by linarith
  have "q / 2 ^ 53 < q" using qpos by (simp add: field_simps)
  with e1 have dpos: "0 < double q" by linarith
  then have ypos: "0 < y" by (simp add: y_def)
  have "double q \<le> 1 + 1 / 2 ^ 53" using e1' q1 by linarith
  then have "double q * 100 \<le> (1 + 1 / 2 ^ 53) * 100" by (rule mult_right_mono) simp
  then have ub: "y \<le> 100 * (1 + 1 / 2 ^ 53)" by (simp only: y_def mult.commute)
  have e2: "\<bar>double y - y\<bar> \<le> y / 2 ^ 53" using ypos by (rule double_error)
  have "y / 2 ^ 53 \<le> 100 * (1 + 1 / 2 ^ 53) / 2 ^ 53" using ub by (simp add: divide_right_mono)
  with e2 have e2': "\<bar>double y - y\<bar> \<le> 100 * (1 + 1 / 2 ^ 53) / 2 ^ 53" by linarith
  have "\<bar>y - 100 * q\<bar> = 100 * \<bar>double q - q\<bar>" by (simp add: y_def abs_if)
  with e1' have e3: "\<bar>y - 100 * q\<bar> \<le> 100 / 2 ^ 53" by simp
  have "\<bar>double y - 100 * q\<bar> \<le> \<bar>double y - y\<bar> + \<bar>y - 100 * q\<bar>" by linarith
  with e2' e3 have "\<bar>double y - 100 * q\<bar> \<le> 100 * (1 + 1 / 2 ^ 53) / 2 ^ 53 + 100 / 2 ^ 53"
    by linarith
  also have "\<dots> < 1 / 2 ^ 45" by simp
  finally show ?thesis by (simp add: y_def q_def)
qed

text \<open>Rounding a number that is close to a fraction with denominator \<open>2 * t\<close>.\<close>

lemma round_near_fraction:
  fixes w :: rat and h t :: nat
  assumes "0 < t" and "\<bar>w - 100 * of_nat h / of_nat t\<bar> < 1 / (2 * of_nat t)"
  shows "(200 * h + t) mod (2 * t) \<noteq> 0 \<Longrightarrow> \<lfloor>w + 1 / 2\<rfloor> = int ((200 * h + t) div (2 * t))"
    and "(200 * h + t) mod (2 * t) = 0 \<Longrightarrow>
           \<lfloor>w + 1 / 2\<rfloor> = int ((200 * h + t) div (2 * t)) - 1
           \<or> \<lfloor>w + 1 / 2\<rfloor> = int ((200 * h + t) div (2 * t))"
proof -
  define k where "k = (200 * h + t) div (2 * t)"
  define r where "r = (200 * h + t) mod (2 * t)"
  have split: "200 * h + t = 2 * t * k + r" by (simp add: k_def r_def)
  have rlt: "r < 2 * t" using assms(1) by (simp add: r_def)
  have tpos: "(0::rat) < of_nat t" using assms(1) by simp
  have "(of_nat (200 * h + t) :: rat) = of_nat (2 * t * k + r)" by (simp only: split)
  then have "200 * of_nat h + of_nat t = 2 * of_nat t * of_nat k + (of_nat r :: rat)"
    by simp
  then have v: "100 * of_nat h / of_nat t + 1 / 2 = of_nat k + of_nat r / (2 * of_nat t :: rat)"
    using tpos by (simp add: field_simps)
  define d :: rat where "d = w - 100 * of_nat h / of_nat t"
  have dlt: "\<bar>d\<bar> < 1 / (2 * of_nat t)" using assms(2) by (simp add: d_def)
  have w: "w + 1 / 2 = of_nat k + of_nat r / (2 * of_nat t) + d"
    using v by (simp add: d_def)
  have t1: "1 / (2 * of_nat t :: rat) \<le> 1 / 2" using assms(1) tpos by (simp add: field_simps)
  show "\<lfloor>w + 1 / 2\<rfloor> = int ((200 * h + t) div (2 * t))" if "(200 * h + t) mod (2 * t) \<noteq> 0"
  proof -
    from that have r1: "1 \<le> r" by (simp add: r_def)
    then have "(1::rat) \<le> of_nat r" by simp
    then have lo: "1 / (2 * of_nat t) \<le> of_nat r / (2 * of_nat t :: rat)"
      using tpos by (simp add: divide_right_mono)
    from rlt have "r + 1 \<le> 2 * t" by simp
    then have "(of_nat (r + 1) :: rat) \<le> of_nat (2 * t)" by (simp only: of_nat_le_iff)
    then have "(of_nat r :: rat) \<le> 2 * of_nat t - 1" by simp
    then have "of_nat r / (2 * of_nat t :: rat) \<le> (2 * of_nat t - 1) / (2 * of_nat t)"
      using tpos by (simp add: divide_right_mono)
    also have "\<dots> = 1 - 1 / (2 * of_nat t)" using tpos by (simp add: field_simps)
    finally have hi: "of_nat r / (2 * of_nat t :: rat) \<le> 1 - 1 / (2 * of_nat t)" .
    from w lo hi dlt have "of_int (int k) \<le> w + 1 / 2" and "w + 1 / 2 < of_int (int k) + 1"
      by linarith+
    then have "\<lfloor>w + 1 / 2\<rfloor> = int k" by (simp add: floor_unique)
    then show ?thesis by (simp add: k_def)
  qed
  show "\<lfloor>w + 1 / 2\<rfloor> = int ((200 * h + t) div (2 * t)) - 1
           \<or> \<lfloor>w + 1 / 2\<rfloor> = int ((200 * h + t) div (2 * t))" if "(200 * h + t) mod (2 * t) = 0"
  proof -
    from that have "r = 0" by (simp add: r_def)
    with w have w0: "w + 1 / 2 = of_int (int k) + d" by simp
    show ?thesis
    proof (cases "0 \<le> d")
      case True
      with dlt t1 w0 have "of_int (int k) \<le> w + 1 / 2" and "w + 1 / 2 < of_int (int k) + 1"
        by linarith+
      then have "\<lfloor>w + 1 / 2\<rfloor> = int k" by (simp add: floor_unique)
      then show ?thesis by (simp add: k_def)
    next
      case False
      with dlt t1 w0 have "of_int (int k - 1) \<le> w + 1 / 2" and "w + 1 / 2 < of_int (int k - 1) + 1"
        by simp_all
      then have "\<lfloor>w + 1 / 2\<rfloor> = int k - 1" by (rule floor_unique)
      then show ?thesis by (simp add: k_def)
    qed
  qed
qed

subsection \<open>Accuracy\<close>

lemma updateAccuracy_accuracy:
  "accuracy (updateAccuracy st) =
     (if 0 < targetsHit st + targetsMissed st
      then Math_round (double (double (of_nat (targetsHit st) /
                                        of_nat (targetsHit st + targetsMissed st)) * 100))
      else 100)"
  by (simp add: updateAccuracy_def Let_def)

lemma updateAccuracy_no_hits:
  "targetsHit st = 0 \<Longrightarrow>
     accuracy (updateAccuracy st) = (if targetsMissed st = 0 then 100 else 0)"
  by (simp add: updateAccuracy_accuracy Math_round_is_round)

lemma updateAccuracy_no_misses:
  "targetsMissed st = 0 \<Longrightarrow> accuracy (updateAccuracy st) = 100"
  by (simp add: updateAccuracy_accuracy Math_round_is_round)

lemma spec_accuracy_div:
  assumes "0 < hits + missed"
  shows "spec_accuracy hits missed =
           int ((200 * hits + (hits + missed)) div (2 * (hits + missed)))"
proof -
  let ?t = "hits + missed"
  have tpos: "(0::rat) < of_nat ?t" using assms by (simp only: of_nat_0_less_iff)
  have "100 * of_nat hits / of_nat ?t + 1 / 2 = (of_nat (200 * hits + ?t) :: rat) / of_nat (2 * ?t)"
    using tpos by (simp add: field_simps)
  then have "round (100 * of_nat hits / of_nat ?t :: rat) =
      \<lfloor>(of_nat (200 * hits + ?t) :: rat) / of_nat (2 * ?t)\<rfloor>"
    by (simp only: round_def)
  also have "\<dots> = int ((200 * hits + ?t) div (2 * ?t))"
    by (rule floor_divide_of_nat_eq)
  finally show ?thesis using assms by (simp add: spec_accuracy_def)
qed

lemma updateAccuracy_near:
  assumes "0 < targetsHit st + targetsMissed st"
    and "targetsHit st + targetsMissed st \<le> 2 ^ 44"
  shows "\<bar>double (double (of_nat (targetsHit st) / of_nat (targetsHit st + targetsMissed st)) * 100)
           - 100 * of_nat (targetsHit st) / of_nat (targetsHit st + targetsMissed st)\<bar>
         < 1 / (2 * of_nat (targetsHit st + targetsMissed st))"
proof -
  let ?t = "targetsHit st + targetsMissed st"
  have tpos: "(0::rat) < of_nat ?t" using assms(1) by (simp only: of_nat_0_less_iff)
  have "(of_nat ?t :: rat) \<le> of_nat (2 ^ 44)" using assms(2) by (simp only: of_nat_le_iff)
  then have "2 * (of_nat ?t :: rat) \<le> 2 ^ 45" by simp
  then have "1 / 2 ^ 45 \<le> 1 / (2 * of_nat ?t :: rat)"
    using tpos by (simp add: field_simps)
  moreover have "\<bar>double (double (of_nat (targetsHit st) / of_nat ?t) * 100)
           - 100 * of_nat (targetsHit st) / of_nat ?t\<bar> < 1 / 2 ^ 45"
    using assms(1) by (intro percent_error) simp_all
  ultimately show ?thesis by linarith
qed

lemma updateAccuracy_exact:
  assumes "0 < targetsHit st + targetsMissed st"
    and "targetsHit st + targetsMissed st \<le> 2 ^ 44"
    and "\<not> half_way (targetsHit st) (targetsMissed st)"
  shows "accuracy (updateAccuracy st) = spec_accuracy (targetsHit st) (targetsMissed st)"
proof -
  from assms(3)
  have "(200 * targetsHit st + (targetsHit st + targetsMissed st))
          mod (2 * (targetsHit st + targetsMissed st)) \<noteq> 0"
    by (simp add: half_way_def)
  from round_near_fraction(1) [OF assms(1) updateAccuracy_near [OF assms(1,2)] this]
  show ?thesis
    using assms(1) by (simp add: updateAccuracy_accuracy Math_round_def spec_accuracy_div)
qed

lemma updateAccuracy_half_way:
  assumes "0 < targetsHit st + targetsMissed st"
    and "targetsHit st + targetsMissed st \<le> 2 ^ 44"
    and "half_way (targetsHit st) (targetsMissed st)"
  shows "accuracy (updateAccuracy st) = spec_accuracy (targetsHit st) (targetsMissed st) - 1
         \<or> accuracy (updateAccuracy st) = spec_accuracy (targetsHit st) (targetsMissed st)"
proof -
  from assms(3)
  have "(200 * targetsHit st + (targetsHit st + targetsMissed st))
          mod (2 * (targetsHit st + targetsMissed st)) = 0"
    by (simp add: half_way_def)
  from round_near_fraction(2) [OF assms(1) updateAccuracy_near [OF assms(1,2)] this]
  show ?thesis
    using assms(1) by (simp add: updateAccuracy_accuracy Math_round_def spec_accuracy_div)
qed

lemma updateAccuracy_bounds:
  "0 \<le> accuracy (updateAccuracy st) \<and> accuracy (updateAccuracy st) \<le> 100"
proof (cases "0 < targetsHit st + targetsMissed st")
  case False
  then show ?thesis by (simp add: updateAccuracy_accuracy)
next
  case True
  let ?t = "targetsHit st + targetsMissed st"
  let ?w = "double (double (of_nat (targetsHit st) / of_nat ?t) * 100)"
  have tpos: "(0::rat) < of_nat ?t" using True by (simp only: of_nat_0_less_iff)
  have "0 \<le> double (of_nat (targetsHit st) / of_nat ?t)"
    by (rule double_nonneg) simp
  then have "0 \<le> double (of_nat (targetsHit st) / of_nat ?t) * 100" by simp
  then have nn: "0 \<le> ?w" by (rule double_nonneg)
  have "(of_nat (targetsHit st) :: rat) \<le> of_nat ?t" by simp
  then have "100 * of_nat (targetsHit st) / of_nat ?t \<le> (100::rat)"
    using tpos by (simp add: field_simps)
  moreover have "\<bar>?w - 100 * of_nat (targetsHit st) / of_nat ?t\<bar> < 1 / 2 ^ 45"
    using True by (intro percent_error) simp_all
  ultimately have "?w < 100 + 1 / 2 ^ 45" by linarith
  then have "?w + 1 / 2 < of_int 101" by simp
  then have "\<lfloor>?w + 1 / 2\<rfloor> < 101" by (simp only: floor_less_iff)
  moreover from nn have "0 \<le> \<lfloor>?w + 1 / 2\<rfloor>" by simp
  ultimately show ?thesis using True by (simp add: updateAccuracy_accuracy Math_round_def)
qed

lemma updateAccuracy_frame [simp]:
  "targetsHit (updateAccuracy st) = targetsHit st"
  "targetsMissed (updateAccuracy st) = targetsMissed st"
  "score (updateAccuracy st) = score st"
  "activeTargets (updateAccuracy st) = activeTargets st"
  "isPlaying (updateAccuracy st) = isPlaying st"
  "isPaused (updateAccuracy st) = isPaused st"
  "timers (updateAccuracy st) = timers st"
  "nextHandle (updateAccuracy st) = nextHandle st"
  "gameTimer (updateAccuracy st) = gameTimer st"
  "targetSpawnTimer (updateAccuracy st) = targetSpawnTimer st"
  "timeLeft (updateAccuracy st) = timeLeft st"
  "currentDifficulty (updateAccuracy st) = currentDifficulty st"
  "currentMode (updateAccuracy st) = currentMode st"
  "leaderboard (updateAccuracy st) = leaderboard st"
  "storage (updateAccuracy st) = storage st"
  by (simp_all add: updateAccuracy_def Let_def)

lemma accuracy_ok_updateAccuracy: "accuracy_ok (updateAccuracy st)"
  by (simp add: accuracy_ok_def updateAccuracy_accuracy)

lemma accuracy_ok_counters:
  "counters st' = counters st \<Longrightarrow> accuracy_ok st \<Longrightarrow> accuracy_ok st'"
  by (simp add: accuracy_ok_def counters_def updateAccuracy_accuracy)

lemma clearInterval_eq:
  "clearInterval ho st =
     st\<lparr>timers := (case ho of None \<Rightarrow> timers st
                      | Some h \<Rightarrow> filter (\<lambda>e. fst e \<noteq> h) (timers st))\<rparr>"
  by (cases ho) (simp_all add: clearInterval_def)

lemma startTimer_eq:
  "startTimer st =
     st\<lparr>timers := timers st @ [(nextHandle st, ClockInterval)],
        nextHandle := Suc (nextHandle st), gameTimer := Some (nextHandle st)\<rparr>"
  by (simp add: startTimer_def setInterval_def)

lemma startTargetSpawning_eq:
  "startTargetSpawning st =
     st\<lparr>timers := timers st @ [(nextHandle st, SpawnInterval)],
        nextHandle := Suc (nextHandle st), targetSpawnTimer := Some (nextHandle st)\<rparr>"
  by (simp add: startTargetSpawning_def setInterval_def)

lemma counters_clearInterval [simp]: "counters (clearInterval ho st) = counters st"
  by (simp add: counters_def clearInterval_eq)

lemma counters_startTimer [simp]: "counters (startTimer st) = counters st"
  by (simp add: counters_def startTimer_def setInterval_def)

lemma counters_startTargetSpawning [simp]: "counters (startTargetSpawning st) = counters st"
  by (simp add: counters_def startTargetSpawning_def setInterval_def)

lemma counters_pauseGame [simp]: "counters (pauseGame st) = counters st"
  by (simp add: pauseGame_def)

lemma counters_resumeGame [simp]: "counters (resumeGame st) = counters st"
  by (simp add: resumeGame_def)

lemma counters_togglePause [simp]: "counters (togglePause st) = counters st"
  by (simp add: togglePause_def Let_def pauseGame_def resumeGame_def clearInterval_eq
        startTimer_eq startTargetSpawning_eq counters_def)

lemma counters_stopGame [simp]: "counters (stopGame st) = counters st"
  by (simp add: stopGame_def Let_def clearInterval_eq counters_def)

lemma counters_calculateFinalScore [simp]: "counters (calculateFinalScore st) = counters st"
  by (simp add: calculateFinalScore_def Let_def counters_def)

lemma counters_saveToLeaderboard [simp]:
  "counters (state_of (saveToLeaderboard date st)) = counters st"
  by (simp add: saveToLeaderboard_def Let_def counters_def state_of_def split: jsvalue.splits)

lemma counters_endGame [simp]: "counters (state_of (endGame date st)) = counters st"
  by (simp add: endGame_def)

lemma counters_spawnTarget [simp]: "counters (spawnTarget inp st) = counters st"
  by (simp add: spawnTarget_def Let_def setTimeout_def counters_def)

lemma counters_handleCanvasMouseMove [simp]:
  "counters (handleCanvasMouseMove px py st) = counters st"
  by (simp add: handleCanvasMouseMove_def Let_def counters_def)

lemma init_frame [simp]:
  "timers (state_of (init st)) = timers st"
  "nextHandle (state_of (init st)) = nextHandle st"
  "gameTimer (state_of (init st)) = gameTimer st"
  "targetSpawnTimer (state_of (init st)) = targetSpawnTimer st"
  "isPlaying (state_of (init st)) = isPlaying st"
  "isPaused (state_of (init st)) = isPaused st"
  "activeTargets (state_of (init st)) = activeTargets st"
  "targetsHit (state_of (init st)) = targetsHit st"
  "targetsMissed (state_of (init st)) = targetsMissed st"
  "accuracy (state_of (init st)) = accuracy st"
  "score (state_of (init st)) = score st"
  by (auto simp: init_def loadLeaderboard_def split: option.splits sum.splits)

lemma counters_init [simp]: "counters (state_of (init st)) = counters st"
  by (simp add: counters_def)

lemma accuracy_ok_resetGameState: "accuracy_ok (resetGameState st)"
  by (simp add: resetGameState_def accuracy_ok_updateAccuracy)

lemma accuracy_ok_startGame: "accuracy_ok st \<Longrightarrow> accuracy_ok (startGame st)"
proof (cases "isPlaying st")
  case True
  assume "accuracy_ok st"
  with True show ?thesis by (simp add: startGame_def)
next
  case False
  have "counters (startGame st) = counters (resetGameState st)"
    using False by (simp add: startGame_def startTimer_eq startTargetSpawning_eq counters_def)
  then show ?thesis
    using accuracy_ok_resetGameState by (rule accuracy_ok_counters)
qed

lemma accuracy_ok_resetGame: "accuracy_ok (state_of (resetGame st))"
  by (simp add: resetGame_def accuracy_ok_resetGameState)

lemma accuracy_ok_spawnTarget_timeout:
  "accuracy_ok st \<Longrightarrow> accuracy_ok (spawnTarget_timeout i st)"
  by (simp add: spawnTarget_timeout_def accuracy_ok_updateAccuracy split: option.splits)

lemma accuracy_ok_handleCanvasClick:
  "accuracy_ok st \<Longrightarrow> accuracy_ok (state_of (handleCanvasClick px py st))"
  by (simp add: handleCanvasClick_def state_of_def accuracy_ok_updateAccuracy split: option.splits)

lemma accuracy_ok_startTimer_interval:
  assumes "accuracy_ok st"
  shows "accuracy_ok (state_of (startTimer_interval date st))"
proof -
  have "counters (state_of (startTimer_interval date st)) = counters st"
    by (simp add: startTimer_interval_def Let_def)
       (simp add: counters_def state_of_def)
  then show ?thesis using assms by (rule accuracy_ok_counters)
qed

lemma accuracy_ok_fire_timer:
  assumes "accuracy_ok st"
  shows "accuracy_ok (state_of (fire_timer h inp st))"
proof (cases "map_of (timers st) h")
  case None
  with assms show ?thesis by (simp add: fire_timer_def state_of_def)
next
  case (Some c)
  show ?thesis
  proof (cases c)
    case ClockInterval
    with Some assms show ?thesis
      by (simp add: fire_timer_def accuracy_ok_startTimer_interval)
  next
    case SpawnInterval
    with Some have "state_of (fire_timer h inp st) = spawnTarget inp st"
      by (simp add: fire_timer_def state_of_def)
    with assms show ?thesis
      by (simp add: accuracy_ok_counters [OF counters_spawnTarget])
  next
    case (ExpiryTimeout i)
    have "accuracy_ok (st\<lparr>timers := filter (\<lambda>e. fst e \<noteq> h) (timers st)\<rparr>)"
      using assms by (simp add: accuracy_ok_def updateAccuracy_accuracy)
    then show ?thesis
      using Some ExpiryTimeout
      by (simp add: fire_timer_def state_of_def accuracy_ok_spawnTarget_timeout)
  qed
qed

lemma accuracy_ok_deliver:
  assumes "accuracy_ok st"
  shows "accuracy_ok (state_of (deliver ev st))"
proof (cases ev)
  case Call_init
  with assms show ?thesis
    by (simp add: accuracy_ok_counters [OF counters_init])
next
  case StartButton
  with assms show ?thesis by (simp add: state_of_def accuracy_ok_startGame)
next
  case PauseButton
  with assms show ?thesis
    by (simp add: state_of_def accuracy_ok_counters [OF counters_togglePause])
next
  case ResetButton
  then show ?thesis by (simp add: accuracy_ok_resetGame)
next
  case (CanvasClick px py)
  with assms show ?thesis by (simp add: accuracy_ok_handleCanvasClick)
next
  case (CanvasMouseMove px py)
  with assms show ?thesis
    by (simp add: state_of_def accuracy_ok_counters [OF counters_handleCanvasMouseMove])
next
  case (Keydown k)
  with assms show ?thesis
    by (cases k)
       (simp_all add: handleKeydown_def
          accuracy_ok_counters [OF counters_togglePause]
          accuracy_ok_startGame accuracy_ok_resetGame)
next
  case (VisibilityChange hidden)
  with assms show ?thesis
    by (simp add: state_of_def handleVisibilityChange_def
          accuracy_ok_counters [OF counters_togglePause])
next
  case (DifficultyChange d)
  with assms show ?thesis
    by (simp add: state_of_def handleDifficultyChange_def accuracy_ok_def updateAccuracy_accuracy)
next
  case (ModeChange m)
  with assms show ?thesis
    by (simp add: state_of_def handleModeChange_def accuracy_ok_def updateAccuracy_accuracy)
next
  case (TimerFires h inp)
  with assms show ?thesis by (simp add: accuracy_ok_fire_timer)
next
  case Call_pauseGame
  with assms show ?thesis
    by (simp add: state_of_def accuracy_ok_counters [OF counters_pauseGame])
next
  case Call_resumeGame
  with assms show ?thesis
    by (simp add: state_of_def accuracy_ok_counters [OF counters_resumeGame])
next
  case (Call_endGame date)
  with assms show ?thesis
    by (simp add: accuracy_ok_counters [OF counters_endGame])
qed

lemma accuracy_ok_run: "accuracy_ok st \<Longrightarrow> accuracy_ok (run evs st)"
  by (induction evs arbitrary: st) (simp_all add: accuracy_ok_deliver)

lemma accuracy_ok_initial: "accuracy_ok (initial_game w h stored)"
  by (simp add: accuracy_ok_def initial_game_def updateAccuracy_accuracy)

lemma spec_accuracy_bounds: "0 \<le> spec_accuracy hits missed \<and> spec_accuracy hits missed \<le> 100"
proof (cases "hits + missed = 0")
  case True then show ?thesis by (simp add: spec_accuracy_def)
next
  case False
  then have "0 < hits + missed" by simp
  then have pos: "(0::rat) < of_nat (hits + missed)" by (simp only: of_nat_0_less_iff)
  have "(of_nat hits :: rat) \<le> of_nat (hits + missed)" by simp
  then have "100 * of_nat hits / of_nat (hits + missed) \<le> (100::rat)"
    using pos by (simp add: field_simps)
  then have "round (100 * of_nat hits / of_nat (hits + missed) :: rat) \<le> round (100::rat)"
    by (rule round_mono)
  moreover have "round (0::rat) \<le> round (100 * of_nat hits / of_nat (hits + missed) :: rat)"
    by (rule round_mono) simp
  ultimately show ?thesis by (simp add: spec_accuracy_def)
qed

subsection \<open>Target selection\<close>

lemma checkTargetHit_loop_None:
  "checkTargetHit_loop n px py ts = None \<longleftrightarrow> (\<forall>j<n. \<not> inside px py (ts ! j))"
  by (induction n) (auto simp: less_Suc_eq)

lemma checkTargetHit_loop_Some:
  "checkTargetHit_loop n px py ts = Some i \<longleftrightarrow>
     i < n \<and> inside px py (ts ! i) \<and> (\<forall>j. i < j \<and> j < n \<longrightarrow> \<not> inside px py (ts ! j))"
proof (induction n)
  case 0
  show ?case by simp
next
  case (Suc n)
  show ?case
  proof (cases "inside px py (ts ! n)")
    case True
    have "n = i \<longleftrightarrow>
        i < Suc n \<and> inside px py (ts ! i) \<and> (\<forall>j. i < j \<and> j < Suc n \<longrightarrow> \<not> inside px py (ts ! j))"
      using True by (metis Suc_lessI lessI less_Suc_eq not_less_eq)
    with True show ?thesis by simp
  next
    case False
    have "(\<forall>j. i < j \<and> j < Suc n \<longrightarrow> \<not> inside px py (ts ! j)) \<longleftrightarrow>
          (\<forall>j. i < j \<and> j < n \<longrightarrow> \<not> inside px py (ts ! j))"
      using False by (auto simp: less_Suc_eq)
    moreover have "i < Suc n \<and> inside px py (ts ! i) \<longleftrightarrow> i < n \<and> inside px py (ts ! i)"
      using False by (auto simp: less_Suc_eq)
    ultimately show ?thesis using False Suc.IH by auto
  qed
qed

lemma checkTargetHit_latest:
  "checkTargetHit px py ts = Some i \<longleftrightarrow>
     i < length ts \<and> inside px py (ts ! i) \<and>
     (\<forall>j. i < j \<and> j < length ts \<longrightarrow> \<not> inside px py (ts ! j))"
  by (simp add: checkTargetHit_def checkTargetHit_loop_Some)

lemma checkTargetHit_none:
  "checkTargetHit px py ts = None \<longleftrightarrow> (\<forall>t \<in> set ts. \<not> inside px py t)"
  by (simp add: checkTargetHit_def checkTargetHit_loop_None all_set_conv_all_nth)

lemma isHover_handleCanvasMouseMove:
  assumes "isPlaying st" and "\<not> isPaused st"
  shows "map isHover (activeTargets (handleCanvasMouseMove px py st)) =
           map (\<lambda>k. Some k = checkTargetHit px py (activeTargets st))
             [0..<length (activeTargets st)]"
proof -
  have "map isHover (activeTargets (handleCanvasMouseMove px py st)) =
          map (\<lambda>e. Some (fst e) = checkTargetHit px py (activeTargets st))
            (enumerate 0 (activeTargets st))"
    using assms by (simp add: handleCanvasMouseMove_def Let_def case_prod_beta comp_def)
  also have "\<dots> = map (\<lambda>k. Some k = checkTargetHit px py (activeTargets st))
                     (map fst (enumerate 0 (activeTargets st)))"
    by (simp only: map_map comp_def)
  also have "map fst (enumerate 0 (activeTargets st)) = [0..<length (activeTargets st)]"
    by (simp add: map_fst_enumerate)
  finally show ?thesis .
qed

subsection \<open>The scenario states\<close>

lemmas session_defs =
  startGame_def resetGameState_def updateAccuracy_def startTimer_def startTargetSpawning_def
  setInterval_def setTimeout_def fire_timer_def spawnTarget_def Let_def state_of_def
  togglePause_def pauseGame_def resumeGame_def clearInterval_def init_def loadLeaderboard_def

lemma one_target_session_eq:
  "one_target_session =
     fresh_page\<lparr>isInitialized := True, isPlaying := True, gameTimer := Some 1, targetSpawnTimer := Some 2,
       activeTargets := [\<lparr>tid = 2001 / 2, tx = 100, ty = 100, radius = 50, spawnTime = 1000,
                          lifetime = 2000, isHover = False, opacity = 1\<rparr>],
       timers := [(1, ClockInterval), (2, SpawnInterval), (3, ExpiryTimeout (2001 / 2))],
       nextHandle := 4\<rparr>"
  by (simp add: one_target_session_def fresh_page_def initial_game_def session_defs spawn_first_def)

lemma two_target_session_eq:
  "two_target_session =
     fresh_page\<lparr>isInitialized := True, isPlaying := True, gameTimer := Some 1, targetSpawnTimer := Some 2,
       activeTargets := [\<lparr>tid = 2001 / 2, tx = 100, ty = 100, radius = 50, spawnTime = 1000,
                          lifetime = 2000, isHover = False, opacity = 1\<rparr>,
                         \<lparr>tid = 8001 / 4, tx = 100, ty = 100, radius = 50, spawnTime = 2000,
                          lifetime = 2000, isHover = False, opacity = 1\<rparr>],
       timers := [(1, ClockInterval), (2, SpawnInterval), (3, ExpiryTimeout (2001 / 2)),
                  (4, ExpiryTimeout (8001 / 4))],
       nextHandle := 5\<rparr>"
  by (simp add: two_target_session_def fresh_page_def initial_game_def session_defs
        spawn_first_def spawn_second_def)

lemma paused_session_eq:
  "paused_session =
     fresh_page\<lparr>isInitialized := True, isPlaying := True, isPaused := True, gameTimer := Some 1,
       targetSpawnTimer := Some 2, nextHandle := 3\<rparr>"
  by (simp add: paused_session_def fresh_page_def initial_game_def session_defs)

lemma stale_spawner_page_eq:
  "stale_spawner_page =
     fresh_page\<lparr>isInitialized := True, gameTimer := Some 1, targetSpawnTimer := Some 2,
       timers := [(1, ClockInterval), (2, SpawnInterval)], nextHandle := 3\<rparr>"
  by (simp add: stale_spawner_page_def fresh_page_def initial_game_def session_defs)

subsection \<open>Facts about \<open>findIndex\<close> and \<open>splice\<close>\<close>

lemma findIndex_None: "findIndex p xs = None \<longleftrightarrow> (\<forall>x \<in> set xs. \<not> p x)"
  by (induction xs) auto

lemma findIndex_Some:
  "findIndex p xs = Some k \<Longrightarrow> k < length xs \<and> p (xs ! k) \<and> (\<forall>j<k. \<not> p (xs ! j))"
proof (induction xs arbitrary: k)
  case Nil
  then show ?case by simp
next
  case (Cons a as)
  show ?case
  proof (cases "p a")
    case True
    with Cons.prems show ?thesis by simp
  next
    case False
    with Cons.prems obtain k' where k: "k = Suc k'" and f: "findIndex p as = Some k'"
      by auto
    from Cons.IH [OF f] False k show ?thesis
      by (auto simp: less_Suc_eq_0_disj)
  qed
qed

lemma findIndex_finds:
  assumes "i < length xs" and "p (xs ! i)"
  shows "\<exists>k. findIndex p xs = Some k \<and> k < length xs"
proof (cases "findIndex p xs")
  case None
  then have "\<forall>x \<in> set xs. \<not> p x" by (simp add: findIndex_None)
  with assms show ?thesis by (auto simp: all_set_conv_all_nth)
next
  case (Some k)
  then show ?thesis by (simp add: findIndex_Some)
qed

lemma length_splice1: "k < length xs \<Longrightarrow> Suc (length (splice1 k xs)) = length xs"
  by (simp add: splice1_def)

subsection \<open>The timers invariant\<close>

lemmas tracked_defs =
  timers_tracked_def handles_tracked_def no_intervals_def list_all_iff option.pred_set

lemma pauseGame_eq:
  "pauseGame st =
     st\<lparr>timers := filter (\<lambda>e. Some (fst e) \<noteq> gameTimer st \<and> Some (fst e) \<noteq> targetSpawnTimer st)
                  (timers st)\<rparr>"
  by (cases "gameTimer st"; cases "targetSpawnTimer st")
     (simp_all add: pauseGame_def clearInterval_def conj_commute)

lemma resumeGame_eq:
  "resumeGame st =
     st\<lparr>timers := timers st @ [(nextHandle st, ClockInterval), (Suc (nextHandle st), SpawnInterval)],
        nextHandle := Suc (Suc (nextHandle st)),
        gameTimer := Some (nextHandle st),
        targetSpawnTimer := Some (Suc (nextHandle st))\<rparr>"
  by (simp add: resumeGame_def startTimer_eq startTargetSpawning_eq)

lemma stopGame_eq:
  "stopGame st =
     (if \<not> isPlaying st then st
      else st\<lparr>isPlaying := False, isPaused := False,
              timers := filter (\<lambda>e. Some (fst e) \<noteq> gameTimer st
                                   \<and> Some (fst e) \<noteq> targetSpawnTimer st) (timers st),
              activeTargets := []\<rparr>)"
  by (cases "gameTimer st"; cases "targetSpawnTimer st")
     (simp_all add: stopGame_def clearInterval_def Let_def conj_commute)

lemma resetGameState_eq:
  "resetGameState st =
     st\<lparr>score := 0, timeLeft := gameDuration (currentMode st), targetsHit := 0,
        targetsMissed := 0, accuracy := 100, activeTargets := []\<rparr>"
  by (simp add: resetGameState_def updateAccuracy_def)

lemma startGame_eq:
  "startGame st =
     (if isPlaying st then st
      else resumeGame ((resetGameState st)\<lparr>isPlaying := True, isPaused := False\<rparr>))"
  by (simp add: startGame_def resumeGame_def)

lemma handles_tracked_cleared:
  assumes "handles_tracked st"
  shows "no_intervals (filter (\<lambda>e. Some (fst e) \<noteq> gameTimer st
                               \<and> Some (fst e) \<noteq> targetSpawnTimer st) (timers st))"
  using assms
  by (auto simp: tracked_defs)

lemma handles_tracked_filter:
  assumes "handles_tracked st"
  shows "handles_tracked (st\<lparr>timers := filter p (timers st)\<rparr>)"
  using assms by (auto simp: tracked_defs)

lemma no_intervals_filter: "no_intervals ts \<Longrightarrow> no_intervals (filter p ts)"
  by (auto simp: no_intervals_def list_all_iff)

lemma handles_tracked_resumeGame:
  assumes "handles_tracked st" and "no_intervals (timers st)"
  shows "handles_tracked (resumeGame st)"
  using assms
  by (auto simp: tracked_defs resumeGame_eq)

lemma handles_tracked_pauseGame:
  "handles_tracked st \<Longrightarrow> handles_tracked (pauseGame st)"
  by (simp add: pauseGame_eq handles_tracked_filter)

lemma no_intervals_pauseGame:
  "handles_tracked st \<Longrightarrow> no_intervals (timers (pauseGame st))"
  by (simp add: pauseGame_eq handles_tracked_cleared)

lemma handles_tracked_frame:
  assumes "timers st' = timers st" and "nextHandle st' = nextHandle st"
    and "gameTimer st' = gameTimer st" and "targetSpawnTimer st' = targetSpawnTimer st"
  shows "handles_tracked st' = handles_tracked st"
  using assms by (simp add: handles_tracked_def)

lemma timers_tracked_frame:
  assumes "timers st' = timers st" and "nextHandle st' = nextHandle st"
    and "gameTimer st' = gameTimer st" and "targetSpawnTimer st' = targetSpawnTimer st"
    and "isPlaying st' = isPlaying st" and "isPaused st' = isPaused st"
    and "length (activeTargets st') \<le> length (activeTargets st)"
    and "timers_tracked st"
  shows "timers_tracked st'"
  using assms by (auto simp: tracked_defs)

lemma timers_tracked_pauseGame:
  "timers_tracked st \<Longrightarrow> timers_tracked (pauseGame st)"
  using handles_tracked_pauseGame [of st] no_intervals_pauseGame [of st]
  by (simp add: timers_tracked_def) (simp add: pauseGame_eq)

lemma timers_tracked_togglePause:
  assumes "timers_tracked st"
  shows "timers_tracked (togglePause st)"
proof (cases "isPlaying st")
  case False
  with assms show ?thesis by (simp add: togglePause_def)
next
  case True
  show ?thesis
  proof (cases "isPaused st")
    case False
    let ?p = "st\<lparr>isPaused := True\<rparr>"
    have h: "handles_tracked ?p"
      using assms by (simp add: tracked_defs)
    have "togglePause st = pauseGame ?p"
      using True False by (simp add: togglePause_def Let_def)
    moreover have "timers_tracked (pauseGame ?p)"
      using handles_tracked_pauseGame [OF h] no_intervals_pauseGame [OF h] True
      by (simp add: timers_tracked_def) (simp add: pauseGame_eq)
    ultimately show ?thesis by simp
  next
    case paused: True
    let ?p = "st\<lparr>isPaused := False\<rparr>"
    have h: "handles_tracked ?p" and n: "no_intervals (timers ?p)"
      using assms True paused by (auto simp: tracked_defs)
    have "togglePause st = resumeGame ?p"
      using True paused by (simp add: togglePause_def Let_def)
    moreover have "timers_tracked (resumeGame ?p)"
      using handles_tracked_resumeGame [OF h n] True
      by (simp add: timers_tracked_def) (simp add: resumeGame_eq)
    ultimately show ?thesis by simp
  qed
qed

lemma timers_tracked_stopGame:
  assumes "timers_tracked st"
  shows "timers_tracked (stopGame st) \<and> no_intervals (timers (stopGame st))
         \<and> activeTargets (stopGame st) = [] \<and> \<not> isPlaying (stopGame st)"
proof (cases "isPlaying st")
  case False
  with assms show ?thesis by (auto simp: stopGame_eq timers_tracked_def)
next
  case True
  have h: "handles_tracked st" using assms by (simp add: timers_tracked_def)
  have "handles_tracked (stopGame st)"
    using handles_tracked_filter [OF h] True
    by (simp add: stopGame_eq tracked_defs)
  moreover have "no_intervals (timers (stopGame st))"
    using handles_tracked_cleared [OF h] True by (simp add: stopGame_eq)
  ultimately show ?thesis using True by (simp add: timers_tracked_def) (simp add: stopGame_eq)
qed

lemma timers_tracked_resetGame:
  assumes "timers_tracked st"
  shows "timers_tracked (state_of (resetGame st)) \<and> no_intervals (timers (state_of (resetGame st)))
         \<and> activeTargets (state_of (resetGame st)) = [] \<and> \<not> isPlaying (state_of (resetGame st))"
proof -
  note s = timers_tracked_stopGame [OF assms]
  have "timers_tracked (resetGameState (stopGame st))"
    by (rule timers_tracked_frame [of _ "stopGame st"]) (simp_all add: resetGameState_eq s)
  with s show ?thesis by (simp add: resetGame_def) (simp add: resetGameState_eq)
qed

lemma timers_tracked_startGame:
  assumes "timers_tracked st"
  shows "timers_tracked (startGame st)"
proof (cases "isPlaying st")
  case True
  with assms show ?thesis by (simp add: startGame_eq)
next
  case False
  let ?p = "(resetGameState st)\<lparr>isPlaying := True, isPaused := False\<rparr>"
  have h: "handles_tracked ?p" and n: "no_intervals (timers ?p)"
    using assms False by (auto simp: tracked_defs resetGameState_eq)
  have "timers_tracked (resumeGame ?p)"
    using handles_tracked_resumeGame [OF h n]
    by (simp add: timers_tracked_def) (simp add: resumeGame_eq)
  with False show ?thesis by (simp add: startGame_eq)
qed

lemma saveToLeaderboard_frame:
  "timers (state_of (saveToLeaderboard date st)) = timers st"
  "nextHandle (state_of (saveToLeaderboard date st)) = nextHandle st"
  "gameTimer (state_of (saveToLeaderboard date st)) = gameTimer st"
  "targetSpawnTimer (state_of (saveToLeaderboard date st)) = targetSpawnTimer st"
  "isPlaying (state_of (saveToLeaderboard date st)) = isPlaying st"
  "isPaused (state_of (saveToLeaderboard date st)) = isPaused st"
  "activeTargets (state_of (saveToLeaderboard date st)) = activeTargets st"
  "score (state_of (saveToLeaderboard date st)) = score st"
  "timeLeft (state_of (saveToLeaderboard date st)) = timeLeft st"
  by (simp_all add: saveToLeaderboard_def Let_def split: jsvalue.splits)

lemma calculateFinalScore_eq:
  "calculateFinalScore st =
     st\<lparr>score := (score st + accuracy st * 10) * scoreMultiplier (currentDifficulty st)\<rparr>"
  by (simp add: calculateFinalScore_def Let_def)

lemma timers_tracked_endGame:
  assumes "timers_tracked st"
  shows "timers_tracked (state_of (endGame date st))
         \<and> no_intervals (timers (state_of (endGame date st)))
         \<and> activeTargets (state_of (endGame date st)) = []
         \<and> \<not> isPlaying (state_of (endGame date st))"
proof -
  note s = timers_tracked_stopGame [OF assms]
  have "timers_tracked (state_of (endGame date st))"
    unfolding endGame_def
    by (rule timers_tracked_frame [of _ "stopGame st"])
       (simp_all add: saveToLeaderboard_frame calculateFinalScore_eq s)
  with s show ?thesis
    by (simp add: endGame_def saveToLeaderboard_frame calculateFinalScore_eq)
qed

lemma timers_tracked_spawnTarget:
  assumes "timers_tracked st"
  shows "timers_tracked (spawnTarget inp st)"
proof (cases "\<not> isPlaying st \<or> isPaused st")
  case True
  with assms show ?thesis by (simp add: spawnTarget_def)
next
  case False
  with assms show ?thesis
    by (auto simp: spawnTarget_def Let_def setTimeout_def tracked_defs)
qed

lemma length_splice1_le: "length (splice1 k xs) \<le> length xs"
  by (simp add: splice1_def)

lemma timers_tracked_spawnTarget_timeout:
  assumes "timers_tracked st"
  shows "timers_tracked (spawnTarget_timeout i st)"
proof (cases "findIndex (\<lambda>t. tid t = i) (activeTargets st)")
  case None
  with assms show ?thesis by (simp add: spawnTarget_timeout_def)
next
  case (Some k)
  show ?thesis
    by (rule timers_tracked_frame [OF _ _ _ _ _ _ _ assms])
       (simp_all add: spawnTarget_timeout_def Some length_splice1_le)
qed

lemma timers_tracked_filter:
  assumes "timers_tracked st"
  shows "timers_tracked (st\<lparr>timers := filter p (timers st)\<rparr>)"
  using assms handles_tracked_filter [of st p] no_intervals_filter [of "timers st" p]
  by (auto simp: timers_tracked_def)

lemma timers_tracked_handleCanvasClick:
  assumes "timers_tracked st"
  shows "timers_tracked (state_of (handleCanvasClick px py st))"
  by (rule timers_tracked_frame [OF _ _ _ _ _ _ _ assms])
     (simp_all add: handleCanvasClick_def split: option.splits)

lemma timers_tracked_handleCanvasMouseMove:
  assumes "timers_tracked st"
  shows "timers_tracked (handleCanvasMouseMove px py st)"
  by (rule timers_tracked_frame [OF _ _ _ _ _ _ _ assms])
     (simp_all add: handleCanvasMouseMove_def Let_def)

lemma timers_tracked_startTimer_interval:
  assumes "timers_tracked st"
  shows "timers_tracked (state_of (startTimer_interval date st))"
proof -
  have t: "timers_tracked (st\<lparr>timeLeft := n\<rparr>)" for n
    by (rule timers_tracked_frame [OF _ _ _ _ _ _ _ assms]) simp_all
  show ?thesis
    using t timers_tracked_endGame [OF t]
    by (simp add: startTimer_interval_def Let_def)
qed

lemma timers_tracked_fire_timer:
  assumes "timers_tracked st"
  shows "timers_tracked (state_of (fire_timer h inp st))"
proof (cases "map_of (timers st) h")
  case None
  with assms show ?thesis by (simp add: fire_timer_def)
next
  case (Some c)
  then show ?thesis
    using timers_tracked_startTimer_interval [OF assms]
      timers_tracked_spawnTarget [OF assms]
      timers_tracked_spawnTarget_timeout [OF timers_tracked_filter [OF assms]]
    by (cases c) (simp_all add: fire_timer_def)
qed

lemma timers_tracked_deliver:
  assumes "timers_tracked st" and "ev \<noteq> Call_resumeGame"
  shows "timers_tracked (state_of (deliver ev st))"
proof (cases ev)
  case Call_init
  have "timers_tracked (state_of (init st))"
    by (rule timers_tracked_frame [OF _ _ _ _ _ _ _ assms(1)]) simp_all
  with Call_init show ?thesis by simp
next
  case (Keydown k)
  with assms show ?thesis
    by (cases k)
       (simp_all add: handleKeydown_def timers_tracked_togglePause timers_tracked_startGame
          timers_tracked_resetGame)
next
  case (DifficultyChange d)
  have "timers_tracked (st\<lparr>currentDifficulty := d\<rparr>)"
    by (rule timers_tracked_frame [OF _ _ _ _ _ _ _ assms(1)]) simp_all
  with assms DifficultyChange show ?thesis by (simp add: handleDifficultyChange_def)
next
  case (ModeChange m)
  have "timers_tracked (st\<lparr>currentMode := m\<rparr>)"
    by (rule timers_tracked_frame [OF _ _ _ _ _ _ _ assms(1)]) simp_all
  with assms ModeChange show ?thesis by (simp add: handleModeChange_def)
qed (use assms in \<open>simp_all add: timers_tracked_startGame timers_tracked_togglePause
      timers_tracked_resetGame timers_tracked_handleCanvasClick
      timers_tracked_handleCanvasMouseMove handleVisibilityChange_def
      timers_tracked_fire_timer timers_tracked_pauseGame timers_tracked_endGame\<close>)

lemma timers_tracked_run:
  "timers_tracked st \<Longrightarrow> Call_resumeGame \<notin> set evs \<Longrightarrow> timers_tracked (run evs st)"
proof (induction evs arbitrary: st)
  case Nil
  then show ?case by simp
next
  case (Cons ev evs)
  from Cons.prems have "ev \<noteq> Call_resumeGame" and rest: "Call_resumeGame \<notin> set evs"
    by auto
  with Cons.prems have "timers_tracked (state_of (deliver ev st))"
    by (simp add: timers_tracked_deliver)
  with rest show ?case by (simp add: Cons.IH)
qed

lemma timers_tracked_initial: "timers_tracked (initial_game w h stored)"
  by (simp add: timers_tracked_def handles_tracked_def no_intervals_def initial_game_def)

lemma pauseGame_idle:
  assumes "timers_tracked st" and "\<not> isPlaying st"
  shows "pauseGame st = st"
proof -
  from assms have "\<forall>e \<in> set (timers st).
      Some (fst e) \<noteq> gameTimer st \<and> Some (fst e) \<noteq> targetSpawnTimer st"
    by (auto simp: tracked_defs)
  then have "filter (\<lambda>e. Some (fst e) \<noteq> gameTimer st \<and> Some (fst e) \<noteq> targetSpawnTimer st)
               (timers st) = timers st"
    by (simp add: filter_id_conv)
  then show ?thesis by (simp add: pauseGame_eq)
qed

subsection \<open>When no interval is left\<close>

lemma map_of_filter_key:
  "p k \<Longrightarrow> map_of (filter (\<lambda>e. p (fst e)) ts) k = map_of ts k"
  by (induction ts) auto

lemma no_intervals_map_of:
  assumes "no_intervals ts" and "map_of ts k = Some c"
  shows "\<exists>i. c = ExpiryTimeout i"
proof -
  from assms(2) have "(k, c) \<in> set ts" by (rule map_of_SomeD)
  with assms(1) have "c \<noteq> ClockInterval \<and> c \<noteq> SpawnInterval"
    by (auto simp: no_intervals_def list_all_iff)
  then show ?thesis by (cases c) simp_all
qed

lemma spawnTarget_timeout_empty:
  "activeTargets st = [] \<Longrightarrow> spawnTarget_timeout i st = st"
  by (simp add: spawnTarget_timeout_def)

text \<open>Once the intervals are gone and the active set is empty, timers change nothing.\<close>

lemma fire_timer_quiet:
  assumes "no_intervals (timers st)" and "activeTargets st = []"
  shows "fire_timer k inp st = Inr (st\<lparr>timers := filter (\<lambda>e. fst e \<noteq> k) (timers st)\<rparr>)"
proof (cases "map_of (timers st) k")
  case None
  then have "\<forall>e \<in> set (timers st). fst e \<noteq> k"
    by (auto simp: map_of_eq_None_iff)
  then have "filter (\<lambda>e. fst e \<noteq> k) (timers st) = timers st"
    by (simp add: filter_id_conv)
  with None show ?thesis by (simp add: fire_timer_def)
next
  case (Some c)
  with assms(1) obtain i where "c = ExpiryTimeout i"
    using no_intervals_map_of by blast
  with Some assms(2) show ?thesis
    by (simp add: fire_timer_def spawnTarget_timeout_empty)
qed

lemma run_timers_quiet:
  assumes "no_intervals (timers st)" and "activeTargets st = []" and "list_all is_timer evs"
  shows "session_view (run evs st) = session_view st
         \<and> no_intervals (timers (run evs st))"
  using assms
proof (induction evs arbitrary: st)
  case Nil
  then show ?case by simp
next
  case (Cons ev evs)
  from Cons.prems(3) obtain k inp where ev: "ev = TimerFires k inp"
    by (cases ev) simp_all
  let ?s = "st\<lparr>timers := filter (\<lambda>e. fst e \<noteq> k) (timers st)\<rparr>"
  have step: "state_of (deliver ev st) = ?s"
    using fire_timer_quiet [OF Cons.prems(1,2)] ev by simp
  have "no_intervals (timers ?s)" and "activeTargets ?s = []"
    using Cons.prems(1,2) by (simp_all add: no_intervals_filter)
  moreover have "list_all is_timer evs"
    using Cons.prems(3) by simp
  ultimately have "session_view (run evs ?s) = session_view ?s
         \<and> no_intervals (timers (run evs ?s))"
    by (rule Cons.IH)
  then show ?case by (simp add: step) (simp add: session_view_def)
qed

lemma last_second_eq:
  "last_second =
     fresh_page\<lparr>isInitialized := True, isPlaying := True, timeLeft := 1, gameTimer := Some 1,
       targetSpawnTimer := Some 2,
       timers := [(1, ClockInterval), (2, SpawnInterval)], nextHandle := 3\<rparr>"
  by (simp add: last_second_def fresh_page_def initial_game_def session_defs
        startTimer_interval_def eval_nat_numeral)

lemma handles_tracked_clock_entry:
  assumes "handles_tracked st" and "map_of (timers st) h = Some ClockInterval"
  shows "gameTimer st = Some h"
proof -
  from assms(2) have mem: "(h, ClockInterval) \<in> set (timers st)" by (rule map_of_SomeD)
  from assms(1) have "\<forall>e \<in> set (timers st). (snd e = ClockInterval) = (gameTimer st = Some (fst e))"
    by (simp add: handles_tracked_def list_all_iff)
  from bspec [OF this mem] show ?thesis by simp
qed

lemma handles_tracked_expiry_entry:
  assumes "handles_tracked st" and "map_of (timers st) k = Some (ExpiryTimeout i)"
  shows "Some k \<noteq> gameTimer st \<and> Some k \<noteq> targetSpawnTimer st"
proof -
  from assms(2) have mem: "(k, ExpiryTimeout i) \<in> set (timers st)" by (rule map_of_SomeD)
  from assms(1) have "\<forall>e \<in> set (timers st).
      (snd e = ClockInterval) = (gameTimer st = Some (fst e))
      \<and> (snd e = SpawnInterval) = (targetSpawnTimer st = Some (fst e))"
    by (simp add: handles_tracked_def list_all_iff)
  from bspec [OF this mem] show ?thesis by auto
qed

lemma paused_with_target_eq:
  "paused_with_target =
     fresh_page\<lparr>isInitialized := True, isPlaying := True, isPaused := True, gameTimer := Some 1,
       targetSpawnTimer := Some 2,
       activeTargets := [\<lparr>tid = 2001 / 2, tx = 100, ty = 100, radius = 50, spawnTime = 1000,
                          lifetime = 2000, isHover = False, opacity = 1\<rparr>],
       timers := [(3, ExpiryTimeout (2001 / 2))],
       nextHandle := 4\<rparr>"
  by (simp add: paused_with_target_def fresh_page_def initial_game_def session_defs spawn_first_def)

subsection \<open>Callbacks of an earlier session\<close>

text \<open>
  Every handler does the same with and without the timers of an earlier session, and a
  callback of the earlier session that fires only leaves the table.
\<close>

lemma forget_before_simps [simp]:
  "isInitialized (forget_before n st) = isInitialized st"
  "isPlaying (forget_before n st) = isPlaying st"
  "isPaused (forget_before n st) = isPaused st"
  "score (forget_before n st) = score st"
  "timeLeft (forget_before n st) = timeLeft st"
  "targetsHit (forget_before n st) = targetsHit st"
  "targetsMissed (forget_before n st) = targetsMissed st"
  "accuracy (forget_before n st) = accuracy st"
  "gameTimer (forget_before n st) = gameTimer st"
  "targetSpawnTimer (forget_before n st) = targetSpawnTimer st"
  "currentDifficulty (forget_before n st) = currentDifficulty st"
  "currentMode (forget_before n st) = currentMode st"
  "leaderboard (forget_before n st) = leaderboard st"
  "activeTargets (forget_before n st) = activeTargets st"
  "canvasWidth (forget_before n st) = canvasWidth st"
  "canvasHeight (forget_before n st) = canvasHeight st"
  "nextHandle (forget_before n st) = nextHandle st"
  "storage (forget_before n st) = storage st"
  "timers (forget_before n st) = filter (\<lambda>e. n \<le> fst e) (timers st)"
  by (simp_all add: forget_before_def)

lemma session_view_forget_before: "session_view (forget_before n st) = session_view st"
  by (simp add: session_view_def)

lemma alike_refl: "alike n a a (forget_before n a)"
  by (simp add: alike_def)

lemma alike_startGame:
  "n \<le> nextHandle a \<Longrightarrow> alike n a (startGame a) (startGame (forget_before n a))"
  by (auto simp: alike_def startGame_eq resumeGame_eq resetGameState_eq forget_before_def)

lemma alike_pauseGame:
  "alike n a (pauseGame a) (pauseGame (forget_before n a))"
  by (auto simp: alike_def pauseGame_eq forget_before_def conj_commute)

lemma alike_resumeGame:
  "n \<le> nextHandle a \<Longrightarrow> alike n a (resumeGame a) (resumeGame (forget_before n a))"
  by (auto simp: alike_def resumeGame_eq forget_before_def)

lemma alike_togglePause:
  "n \<le> nextHandle a \<Longrightarrow> alike n a (togglePause a) (togglePause (forget_before n a))"
  by (auto simp: alike_def togglePause_def Let_def pauseGame_eq resumeGame_eq forget_before_def conj_commute)

lemma alike_stopGame:
  "alike n a (stopGame a) (stopGame (forget_before n a))"
  by (auto simp: alike_def stopGame_eq forget_before_def conj_commute)

lemma alike_resetGame:
  "alike n a (state_of (resetGame a)) (state_of (resetGame (forget_before n a)))"
  by (auto simp: alike_def resetGame_def stopGame_eq resetGameState_eq forget_before_def conj_commute)

lemma alike_init:
  "alike n a (state_of (init a)) (state_of (init (forget_before n a)))"
  by (auto simp: alike_def init_def loadLeaderboard_def forget_before_def
        split: option.splits sum.splits)

lemma alike_handleCanvasClick:
  "alike n a (state_of (handleCanvasClick px py a)) (state_of (handleCanvasClick px py (forget_before n a)))"
  by (auto simp: alike_def handleCanvasClick_def updateAccuracy_def Let_def forget_before_def
        split: option.splits)

lemma alike_handleCanvasMouseMove:
  "alike n a (handleCanvasMouseMove px py a) (handleCanvasMouseMove px py (forget_before n a))"
  by (auto simp: alike_def handleCanvasMouseMove_def Let_def forget_before_def)

lemma alike_endGame:
  "alike n a (state_of (endGame date a)) (state_of (endGame date (forget_before n a)))"
  by (auto simp: alike_def endGame_def stopGame_eq calculateFinalScore_eq saveToLeaderboard_def
        entry_def Let_def forget_before_def conj_commute split: jsvalue.splits)

lemma alike_spawnTarget:
  "n \<le> nextHandle a \<Longrightarrow> alike n a (spawnTarget inp a) (spawnTarget inp (forget_before n a))"
  by (auto simp: alike_def spawnTarget_def setTimeout_def Let_def forget_before_def)

lemma alike_spawnTarget_timeout:
  "alike n a (spawnTarget_timeout i a) (spawnTarget_timeout i (forget_before n a))"
  by (auto simp: alike_def spawnTarget_timeout_def updateAccuracy_def Let_def forget_before_def
        split: option.splits)

lemma alike_startTimer_interval:
  "alike n a (state_of (startTimer_interval date a))
     (state_of (startTimer_interval date (forget_before n a)))"
proof -
  have "alike n a (state_of (endGame date (a\<lparr>timeLeft := timeLeft a - 1\<rparr>)))
          (state_of (endGame date (forget_before n (a\<lparr>timeLeft := timeLeft a - 1\<rparr>))))"
    using alike_endGame [of n "a\<lparr>timeLeft := timeLeft a - 1\<rparr>" date]
    by (simp add: alike_def)
  moreover have "forget_before n (a\<lparr>timeLeft := timeLeft a - 1\<rparr>) =
      (forget_before n a)\<lparr>timeLeft := timeLeft a - 1\<rparr>"
    by (simp add: forget_before_def)
  ultimately show ?thesis
    by (simp add: startTimer_interval_def Let_def) (simp add: alike_def forget_before_def)
qed

lemma alike_trans_filter:
  assumes "alike n (a\<lparr>timers := filter p (timers a)\<rparr>) a' b'"
  shows "alike n a a' b'"
  using assms by (auto simp: alike_def)

lemma alike_fire_timer:
  assumes "n \<le> nextHandle a" and "n \<le> h"
  shows "alike n a (state_of (fire_timer h inp a)) (state_of (fire_timer h inp (forget_before n a)))"
proof -
  have m: "map_of (timers (forget_before n a)) h = map_of (timers a) h"
    using assms(2) by (simp add: map_of_filter_key [where p = "\<lambda>k. n \<le> k"])
  show ?thesis
  proof (cases "map_of (timers a) h")
    case None
    with m show ?thesis by (simp add: fire_timer_def alike_refl)
  next
    case (Some c)
    show ?thesis
    proof (cases c)
      case ClockInterval
      with Some m show ?thesis by (simp add: fire_timer_def alike_startTimer_interval)
    next
      case SpawnInterval
      with Some m assms(1) show ?thesis by (simp add: fire_timer_def alike_spawnTarget)
    next
      case (ExpiryTimeout i)
      let ?a = "a\<lparr>timers := filter (\<lambda>e. fst e \<noteq> h) (timers a)\<rparr>"
      have "forget_before n ?a =
          (forget_before n a)\<lparr>timers := filter (\<lambda>e. fst e \<noteq> h) (timers (forget_before n a))\<rparr>"
        by (simp add: forget_before_def conj_commute)
      with alike_spawnTarget_timeout [of n ?a i]
      have "alike n ?a (spawnTarget_timeout i ?a)
              (spawnTarget_timeout i
                 ((forget_before n a)\<lparr>timers := filter (\<lambda>e. fst e \<noteq> h) (timers (forget_before n a))\<rparr>))"
        by simp
      then have "alike n a (spawnTarget_timeout i ?a)
              (spawnTarget_timeout i
                 ((forget_before n a)\<lparr>timers := filter (\<lambda>e. fst e \<noteq> h) (timers (forget_before n a))\<rparr>))"
        by (rule alike_trans_filter)
      with Some m ExpiryTimeout show ?thesis by (simp add: fire_timer_def)
    qed
  qed
qed

lemma alike_handleKeydown:
  assumes "n \<le> nextHandle a"
  shows "alike n a (state_of (handleKeydown k a)) (state_of (handleKeydown k (forget_before n a)))"
  using assms alike_togglePause [OF assms] alike_startGame [OF assms] alike_resetGame [of n a]
  by (cases k) (simp_all add: handleKeydown_def alike_refl)

lemma alike_deliver:
  assumes "n \<le> nextHandle a" and "\<not> is_stale n ev"
  shows "alike n a (state_of (deliver ev a)) (state_of (deliver ev (forget_before n a)))"
proof (cases ev)
  case Call_init
  then show ?thesis by (simp add: alike_init)
next
  case StartButton
  then show ?thesis by (simp add: alike_startGame [OF assms(1)])
next
  case PauseButton
  then show ?thesis by (simp add: alike_togglePause [OF assms(1)])
next
  case ResetButton
  then show ?thesis by (simp add: alike_resetGame)
next
  case (CanvasClick px py)
  then show ?thesis by (simp add: alike_handleCanvasClick)
next
  case (CanvasMouseMove px py)
  then show ?thesis by (simp add: alike_handleCanvasMouseMove)
next
  case (Keydown k)
  then show ?thesis by (simp add: alike_handleKeydown [OF assms(1)])
next
  case (VisibilityChange hidden)
  then show ?thesis
    by (simp add: handleVisibilityChange_def alike_togglePause [OF assms(1)] alike_refl)
next
  case (DifficultyChange d)
  then show ?thesis by (simp add: handleDifficultyChange_def alike_def forget_before_def)
next
  case (ModeChange m)
  then show ?thesis by (simp add: handleModeChange_def alike_def forget_before_def)
next
  case (TimerFires h inp)
  with assms(2) have "n \<le> h" by simp
  with TimerFires show ?thesis by (simp add: alike_fire_timer [OF assms(1)])
next
  case Call_pauseGame
  then show ?thesis by (simp add: alike_pauseGame)
next
  case Call_resumeGame
  then show ?thesis by (simp add: alike_resumeGame [OF assms(1)])
next
  case (Call_endGame date)
  then show ?thesis by (simp add: alike_endGame)
qed

lemma stale_fire_timer:
  assumes "stale_expiries n ids a" and "h < n"
    and "list_all (\<lambda>t. tid t \<notin> set ids) (activeTargets a)"
  shows "state_of (fire_timer h inp a) = a\<lparr>timers := filter (\<lambda>e. fst e \<noteq> h) (timers a)\<rparr>"
proof (cases "map_of (timers a) h")
  case None
  then have "\<forall>e \<in> set (timers a). fst e \<noteq> h"
    by (auto simp: map_of_eq_None_iff)
  then have "filter (\<lambda>e. fst e \<noteq> h) (timers a) = timers a"
    by (simp add: filter_id_conv)
  with None show ?thesis by (simp add: fire_timer_def)
next
  case (Some c)
  then have "(h, c) \<in> set (timers a)" by (rule map_of_SomeD)
  with assms(1,2) obtain i where i: "i \<in> set ids" and c: "c = ExpiryTimeout i"
    by (auto simp: stale_expiries_def list_all_iff)
  from assms(3) i have "\<forall>t \<in> set (activeTargets a). tid t \<noteq> i"
    by (auto simp: list_all_iff)
  then have "findIndex (\<lambda>t. tid t = i) (activeTargets a) = None"
    by (simp add: findIndex_None)
  with Some c show ?thesis by (simp add: fire_timer_def spawnTarget_timeout_def)
qed

lemma stale_expiries_alike:
  assumes "stale_expiries n ids a" and "alike n a a' b'"
  shows "stale_expiries n ids a'"
  using assms by (fastforce simp: stale_expiries_def alike_def list_all_iff)

lemma stale_run:
  assumes "stale_expiries n ids a" and "ids_fresh ids evs a"
  shows "forget_before n (run evs a) =
           run (filter (\<lambda>ev. \<not> is_stale n ev) evs) (forget_before n a)"
  using assms
proof (induction evs arbitrary: a)
  case Nil
  show ?case by simp
next
  case (Cons ev evs)
  from Cons.prems(2) have fresh: "list_all (\<lambda>t. tid t \<notin> set ids) (activeTargets a)"
    and rest: "ids_fresh ids evs (state_of (deliver ev a))"
    by simp_all
  from Cons.prems(1) have n: "n \<le> nextHandle a" by (simp add: stale_expiries_def)
  show ?case
  proof (cases "is_stale n ev")
    case True
    then obtain h inp where ev: "ev = TimerFires h inp" and h: "h < n"
      by (cases ev) simp_all
    have st: "state_of (deliver ev a) = a\<lparr>timers := filter (\<lambda>e. fst e \<noteq> h) (timers a)\<rparr>"
      using stale_fire_timer [OF Cons.prems(1) h fresh] by (simp add: ev)
    have f: "forget_before n (state_of (deliver ev a)) = forget_before n a"
    proof -
      have "filter (\<lambda>e. n \<le> fst e) (filter (\<lambda>e. fst e \<noteq> h) (timers a)) =
            filter (\<lambda>e. n \<le> fst e) (timers a)"
        using h by (auto intro: filter_cong)
      then show ?thesis by (simp add: st forget_before_def)
    qed
    have "stale_expiries n ids (state_of (deliver ev a))"
      using Cons.prems(1) by (simp add: st stale_expiries_def list_all_iff)
    from Cons.IH [OF this rest] True show ?thesis by (simp add: f)
  next
    case False
    note al = alike_deliver [OF n False]
    then have f: "forget_before n (state_of (deliver ev a)) = state_of (deliver ev (forget_before n a))"
      by (simp add: alike_def)
    from Cons.IH [OF stale_expiries_alike [OF Cons.prems(1) al] rest] False
    show ?thesis by (simp add: f)
  qed
qed

lemma pending_ids_set: "set (pending_ids ts) = {i. \<exists>h. (h, ExpiryTimeout i) \<in> set ts}"
  by (induction ts rule: pending_ids.induct) auto

lemma stale_expiries_quiet:
  assumes "handles_tracked r" and "no_intervals (timers r)"
  shows "stale_expiries (nextHandle r) (pending_ids (timers r)) r"
    and "forget_before (nextHandle r) r = r\<lparr>timers := []\<rparr>"
proof -
  have "\<exists>i \<in> set (pending_ids (timers r)). snd e = ExpiryTimeout i" if "e \<in> set (timers r)" for e
  proof -
    from assms(2) that have "snd e \<noteq> ClockInterval \<and> snd e \<noteq> SpawnInterval"
      by (auto simp: no_intervals_def list_all_iff)
    then obtain i where i: "snd e = ExpiryTimeout i" by (cases "snd e") simp_all
    with that have "(fst e, ExpiryTimeout i) \<in> set (timers r)"
      by (metis prod.collapse)
    with i show ?thesis by (auto simp: pending_ids_set)
  qed
  then show "stale_expiries (nextHandle r) (pending_ids (timers r)) r"
    by (simp add: stale_expiries_def list_all_iff)
  from assms(1) have "\<forall>e \<in> set (timers r). \<not> nextHandle r \<le> fst e"
    by (auto simp: handles_tracked_def list_all_iff)
  then have "filter (\<lambda>e. nextHandle r \<le> fst e) (timers r) = []"
    by (simp add: filter_empty_conv)
  then show "forget_before (nextHandle r) r = r\<lparr>timers := []\<rparr>"
    by (simp add: forget_before_def)
qed

lemma stale_run_quiet:
  assumes "timers_tracked r" and "no_intervals (timers r)"
    and "ids_fresh (pending_ids (timers r)) evs r"
  shows "forget_before (nextHandle r) (run evs r) =
           run (filter (\<lambda>ev. \<not> is_stale (nextHandle r) ev) evs) (r\<lparr>timers := []\<rparr>)"
proof -
  from assms(1) have h: "handles_tracked r" by (simp add: timers_tracked_def)
  from stale_run [OF stale_expiries_quiet(1) [OF h assms(2)] assms(3)]
  show ?thesis by (simp only: stale_expiries_quiet(2) [OF h assms(2)])
qed

lemma after_reset_eq:
  "after_reset =
     fresh_page\<lparr>isInitialized := True, gameTimer := Some 1, targetSpawnTimer := Some 2,
       timers := [(3, ExpiryTimeout (2001 / 2))], nextHandle := 4\<rparr>"
  by (simp add: after_reset_def one_target_session_eq resetGame_def stopGame_eq resetGameState_eq
        fresh_page_def initial_game_def)

subsection \<open>Leaderboard order\<close>

lemma foldr_insort_greatest:
  fixes f :: "'a \<Rightarrow> 'k::linorder"
  assumes "sorted (map f L)" and "\<forall>x \<in> set L. f e < f x"
  shows "foldr (insort_key f) L [e] = e # L"
  using assms
proof (induction L)
  case Nil
  show ?case by simp
next
  case (Cons x L)
  from Cons.prems have tail: "sorted (map f L)" and less: "\<forall>y \<in> set L. f e < f y"
    and first: "\<forall>y \<in> set L. f x \<le> f y" and ex: "f e < f x"
    by auto
  have "foldr (insort_key f) (x # L) [e] = insort_key f x (e # L)"
    using Cons.IH [OF tail less] by simp
  also have "\<dots> = e # insort_key f x L"
  proof -
    from ex have "\<not> f x \<le> f e" by simp
    then show ?thesis by simp
  qed
  also have "insort_key f x L = x # L"
    using first by (rule insort_is_Cons)
  finally show ?case .
qed

lemma sort_key_snoc_greatest:
  fixes f :: "'a \<Rightarrow> 'k::linorder"
  assumes "sorted (map f L)" and "\<forall>x \<in> set L. f e < f x"
  shows "sort_key f (L @ [e]) = e # L"
  using foldr_insort_greatest [OF assms] by (simp add: sort_key_def)

lemma descending_sorted:
  "descending xs = sorted (map (\<lambda>v. - the (score_of v)) xs)"
  by (simp add: descending_def sorted_map)

lemma descending_Array_sort: "descending (Array_sort xs)"
  by (simp add: descending_sorted Array_sort_def)

lemma mset_Array_sort: "mset (Array_sort xs) = mset xs"
  by (simp add: Array_sort_def)

lemma Array_sort_stable:
  "filter (\<lambda>v. the (score_of v) = k) (Array_sort xs) = filter (\<lambda>v. the (score_of v) = k) xs"
proof -
  have "filter (\<lambda>v. - the (score_of v) = - k) (Array_sort xs) =
        filter (\<lambda>v. - the (score_of v) = - k) xs"
    unfolding Array_sort_def by (rule sort_key_stable)
  then show ?thesis by simp
qed

lemma score_of_entry [simp]: "score_of (entry date st) = Some (of_int (score st))"
  by (simp add: entry_def)

lemma saveToLeaderboard_scored:
  assumes "leaderboard st = JArr xs" and "scored xs"
  shows "saveToLeaderboard date st =
           Inr (st\<lparr>leaderboard := JArr (take 10 (Array_sort (xs @ [entry date st]))),
                   storage := Some (JSONText (JArr (take 10 (Array_sort (xs @ [entry date st])))))\<rparr>)"
  using assms by (simp add: saveToLeaderboard_def scored_def Let_def)

lemma take_append_take: "take n (xs @ take n ys) = take n (xs @ ys)"
  by (simp add: take_append min_def)

lemma descending_take: "descending xs \<Longrightarrow> descending (take n xs)"
  by (simp add: descending_def sorted_wrt_take)

lemma scored_take: "scored xs \<Longrightarrow> scored (take n xs)"
  by (auto simp: scored_def list_all_iff dest: in_set_takeD)

lemma entry_score_update:
  "entry d (st\<lparr>score := sc, leaderboard := l, storage := s\<rparr>\<lparr>score := sc'\<rparr>) = entry d (st\<lparr>score := sc'\<rparr>)"
  by (simp add: entry_def)

lemma record_sessions_increasing:
  assumes "leaderboard st = JArr L" and "scored L" and "descending L"
    and "\<forall>v \<in> set L. \<forall>r \<in> set rs. the (score_of v) < of_int (fst r)"
    and "sorted_wrt (<) (map fst rs)" and "length L \<le> 10"
  shows "\<exists>st1. record_sessions rs st = Inr st1
           \<and> leaderboard st1 =
               JArr (take 10 (rev (map (\<lambda>r. entry (snd r) (st\<lparr>score := fst r\<rparr>)) rs) @ L))
           \<and> (rs \<noteq> [] \<longrightarrow> storage st1 = Some (JSONText (leaderboard st1)))
           \<and> (\<forall>d sc. entry d (st1\<lparr>score := sc\<rparr>) = entry d (st\<lparr>score := sc\<rparr>))"
  using assms
proof (induction rs arbitrary: st L)
  case Nil
  then show ?case by simp
next
  case (Cons r rs)
  obtain sc d where r: "r = (sc, d)" by (cases r)
  let ?e = "entry d (st\<lparr>score := sc\<rparr>)"
  let ?L = "take 10 (?e # L)"
  let ?s = "st\<lparr>score := sc, leaderboard := JArr ?L, storage := Some (JSONText (JArr ?L))\<rparr>"
  have greater: "\<forall>v \<in> set L. - the (score_of ?e) < - the (score_of v)"
    using Cons.prems(4) r by simp
  have "sorted (map (\<lambda>v. - the (score_of v)) L)"
    using Cons.prems(3) by (simp add: descending_sorted)
  then have sort: "Array_sort (L @ [?e]) = ?e # L"
    unfolding Array_sort_def using greater by (rule sort_key_snoc_greatest)
  have save: "saveToLeaderboard d (st\<lparr>score := sc\<rparr>) = Inr ?s"
    using saveToLeaderboard_scored [of "st\<lparr>score := sc\<rparr>" L d] Cons.prems(1,2)
    by (simp add: sort)
  have lb: "leaderboard ?s = JArr ?L" by simp
  have sc1: "scored ?L"
    using Cons.prems(2) by (intro scored_take) (simp add: scored_def)
  have desc: "descending (?e # L)"
    using Cons.prems(3) greater by (auto simp: descending_def)
  then have desc1: "descending ?L" by (rule descending_take)
  have below: "\<forall>v \<in> set ?L. \<forall>q \<in> set rs. the (score_of v) < of_int (fst q)"
  proof (intro ballI)
    fix v q
    assume "v \<in> set ?L" and q: "q \<in> set rs"
    then have "v = ?e \<or> v \<in> set L" by (auto dest: in_set_takeD)
    moreover have "sc < fst q" using Cons.prems(5) q r by auto
    ultimately show "the (score_of v) < of_int (fst q)"
      using Cons.prems(4) q by auto
  qed
  have incr: "sorted_wrt (<) (map fst rs)" using Cons.prems(5) by simp
  have short: "length ?L \<le> 10" by simp
  from Cons.IH [OF lb sc1 desc1 below incr short]
  obtain st1 where run: "record_sessions rs ?s = Inr st1"
    and res: "leaderboard st1 =
               JArr (take 10 (rev (map (\<lambda>r. entry (snd r) (?s\<lparr>score := fst r\<rparr>)) rs) @ ?L))"
    and sto: "rs \<noteq> [] \<longrightarrow> storage st1 = Some (JSONText (leaderboard st1))"
    and ent: "\<forall>d sc. entry d (st1\<lparr>score := sc\<rparr>) = entry d (?s\<lparr>score := sc\<rparr>)"
    by blast
  have same: "entry d' (?s\<lparr>score := sc'\<rparr>) = entry d' (st\<lparr>score := sc'\<rparr>)" for d' sc'
    by (simp add: entry_def)
  have "record_sessions (r # rs) st = Inr st1"
    using run save r by simp
  moreover have "leaderboard st1 =
      JArr (take 10 (rev (map (\<lambda>r. entry (snd r) (st\<lparr>score := fst r\<rparr>)) (r # rs)) @ L))"
  proof -
    let ?g = "\<lambda>r. entry (snd r) (st\<lparr>score := fst r\<rparr>)"
    have m: "map (\<lambda>r. entry (snd r) (?s\<lparr>score := fst r\<rparr>)) rs = map ?g rs"
      by (rule map_cong) (simp_all add: entry_def)
    have "leaderboard st1 = JArr (take 10 (rev (map ?g rs) @ take 10 (?e # L)))"
      by (simp only: res m)
    also have "take 10 (rev (map ?g rs) @ take 10 (?e # L)) = take 10 (rev (map ?g rs) @ (?e # L))"
      by (rule take_append_take)
    also have "rev (map ?g rs) @ (?e # L) = rev (map ?g (r # rs)) @ L"
      using r by simp
    finally show ?thesis .
  qed
  moreover have "storage st1 = Some (JSONText (leaderboard st1))"
  proof (cases "rs = []")
    case True
    with run have "st1 = ?s" by simp
    then show ?thesis by simp
  next
    case False
    with sto show ?thesis by simp
  qed
  moreover have "\<forall>d sc. entry d (st1\<lparr>score := sc\<rparr>) = entry d (st\<lparr>score := sc\<rparr>)"
    using ent same by simp
  ultimately show ?case by simp
qed

lemma entry_with_score:
  "entry d (st\<lparr>score := sc\<rparr>) =
     JObj [(''score'', JNum (of_int sc)),
           (''accuracy'', JNum (of_int (accuracy st))),
           (''difficulty'', JStr (difficulty_name (currentDifficulty st))),
           (''mode'', JStr (mode_name (currentMode st))),
           (''date'', JStr d)]"
  by (simp add: entry_def)

lemma saveToLeaderboard_sorted:
  assumes "leaderboard st = JArr xs" and "scored xs"
  shows "(\<exists>ys. saveToLeaderboard date st =
                 Inr (st\<lparr>leaderboard := JArr (take 10 ys),
                         storage := Some (JSONText (JArr (take 10 ys)))\<rparr>)
             \<and> mset ys = mset (xs @ [entry date st])
             \<and> descending ys
             \<and> (\<forall>k. filter (\<lambda>v. the (score_of v) = k) ys =
                      filter (\<lambda>v. the (score_of v) = k) (xs @ [entry date st])))
         \<and> (xs = [] \<and> length rs = 11 \<and> sorted_wrt (<) (map fst rs) \<longrightarrow>
              (\<exists>st1. record_sessions rs st = Inr st1
                 \<and> leaderboard st1 =
                     JArr (rev (map (\<lambda>r. entry (snd r) (st\<lparr>score := fst r\<rparr>)) (tl rs)))
                 \<and> descending (rev (map (\<lambda>r. entry (snd r) (st\<lparr>score := fst r\<rparr>)) (tl rs)))
                 \<and> storage st1 = Some (JSONText (leaderboard st1))))"
proof -
  let ?ys = "Array_sort (xs @ [entry date st])"
  have one: "\<exists>ys. saveToLeaderboard date st =
                 Inr (st\<lparr>leaderboard := JArr (take 10 ys),
                         storage := Some (JSONText (JArr (take 10 ys)))\<rparr>)
             \<and> mset ys = mset (xs @ [entry date st])
             \<and> descending ys
             \<and> (\<forall>k. filter (\<lambda>v. the (score_of v) = k) ys =
                      filter (\<lambda>v. the (score_of v) = k) (xs @ [entry date st]))"
    using saveToLeaderboard_scored [OF assms, of date] mset_Array_sort [of "xs @ [entry date st]"]
      descending_Array_sort [of "xs @ [entry date st]"] Array_sort_stable [of _ "xs @ [entry date st]"]
    by (intro exI [of _ ?ys]) simp
  have eleven: "\<exists>st1. record_sessions rs st = Inr st1
                 \<and> leaderboard st1 =
                     JArr (rev (map (\<lambda>r. entry (snd r) (st\<lparr>score := fst r\<rparr>)) (tl rs)))
                 \<and> descending (rev (map (\<lambda>r. entry (snd r) (st\<lparr>score := fst r\<rparr>)) (tl rs)))
                 \<and> storage st1 = Some (JSONText (leaderboard st1))"
    if empty: "xs = []" and len: "length rs = 11" and incr: "sorted_wrt (<) (map fst rs)"
  proof -
    let ?g = "\<lambda>r. entry (snd r) (st\<lparr>score := fst r\<rparr>)"
    have lb: "leaderboard st = JArr []" using assms(1) empty by simp
    from record_sessions_increasing [OF lb _ _ _ incr, simplified scored_def descending_def]
    obtain st1 where run: "record_sessions rs st = Inr st1"
      and res: "leaderboard st1 = JArr (take 10 (rev (map ?g rs) @ []))"
      and sto: "rs \<noteq> [] \<longrightarrow> storage st1 = Some (JSONText (leaderboard st1))"
      by auto
    have "take 10 (rev (map ?g rs)) = rev (drop 1 (map ?g rs))"
      using len by (simp add: take_rev)
    also have "\<dots> = rev (map ?g (tl rs))"
      by (simp add: drop_Suc map_tl)
    finally have top: "take 10 (rev (map ?g rs)) = rev (map ?g (tl rs))" .
    have "sorted_wrt (<) (map fst (tl rs))"
      using incr by (cases rs) simp_all
    then have "sorted_wrt (\<lambda>a b. fst a < fst b) (tl rs)"
      by (simp add: sorted_wrt_map)
    then have "sorted_wrt (\<lambda>a b. the (score_of (?g a)) \<le> the (score_of (?g b))) (tl rs)"
      by (rule sorted_wrt_mono_rel [rotated]) simp
    then have "descending (rev (map ?g (tl rs)))"
      by (simp add: descending_def sorted_wrt_rev sorted_wrt_map)
    moreover have "rs \<noteq> []" using len by auto
    ultimately show ?thesis using run res sto top by simp
  qed
  from one eleven show ?thesis by simp
qed

subsection \<open>No hit is ever counted\<close>

text \<open>
  \<open>targetsHit\<close> is incremented by \<open>hitTarget\<close> only, which no handler reaches: in every
  state that the page can reach the counter is 0.
\<close>

lemma targetsHit_counters: "counters st' = counters st \<Longrightarrow> targetsHit st' = targetsHit st"
  by (simp add: counters_def)

lemma targetsHit_deliver:
  assumes "targetsHit st = 0"
  shows "targetsHit (state_of (deliver ev st)) = 0"
proof (cases ev)
  case Call_init
  with assms show ?thesis by simp
next
  case StartButton
  with assms show ?thesis by (simp add: startGame_eq resumeGame_eq resetGameState_eq)
next
  case PauseButton
  with assms show ?thesis by (simp add: targetsHit_counters [OF counters_togglePause])
next
  case ResetButton
  then show ?thesis by (simp add: resetGame_def resetGameState_eq)
next
  case (CanvasClick px py)
  with assms show ?thesis by (simp add: handleCanvasClick_def split: option.splits)
next
  case (CanvasMouseMove px py)
  with assms show ?thesis by (simp add: targetsHit_counters [OF counters_handleCanvasMouseMove])
next
  case (Keydown k)
  with assms show ?thesis
    by (cases k)
       (simp_all add: handleKeydown_def targetsHit_counters [OF counters_togglePause]
          startGame_eq resumeGame_eq resetGameState_eq resetGame_def)
next
  case (VisibilityChange hidden)
  with assms show ?thesis
    by (simp add: handleVisibilityChange_def targetsHit_counters [OF counters_togglePause])
next
  case (DifficultyChange d)
  with assms show ?thesis by (simp add: handleDifficultyChange_def)
next
  case (ModeChange m)
  with assms show ?thesis by (simp add: handleModeChange_def)
next
  case (TimerFires h inp)
  have clock: "targetsHit (state_of (startTimer_interval d st)) = targetsHit st" for d
    by (simp add: startTimer_interval_def Let_def targetsHit_counters [OF counters_endGame])
  have spawn: "targetsHit (spawnTarget inp st) = targetsHit st"
    by (rule targetsHit_counters) simp
  have expiry: "targetsHit (spawnTarget_timeout i s) = targetsHit s" for i s
    by (simp add: spawnTarget_timeout_def split: option.splits)
  show ?thesis
  proof (cases "map_of (timers st) h")
    case None
    with assms TimerFires show ?thesis by (simp add: fire_timer_def)
  next
    case (Some c)
    with assms TimerFires clock spawn expiry show ?thesis
      by (cases c) (simp_all add: fire_timer_def)
  qed
next
  case Call_pauseGame
  with assms show ?thesis by (simp add: targetsHit_counters [OF counters_pauseGame])
next
  case Call_resumeGame
  with assms show ?thesis by (simp add: targetsHit_counters [OF counters_resumeGame])
next
  case (Call_endGame date)
  with assms show ?thesis by (simp add: targetsHit_counters [OF counters_endGame])
qed

lemma hits_never_counted: "targetsHit (run evs (initial_game w h stored)) = 0"
proof -
  have "targetsHit st = 0 \<Longrightarrow> targetsHit (run evs st) = 0" for st
    by (induction evs arbitrary: st) (simp_all add: targetsHit_deliver)
  then show ?thesis by (simp add: initial_game_def)
qed

subsection \<open>The misses of a run\<close>

text \<open>
  Every event either resets the miss counter, when it starts or resets a session, or adds
  to it the misses that it brings.
\<close>

lemma targetsMissed_counters: "counters st' = counters st \<Longrightarrow> targetsMissed st' = targetsMissed st"
  by (simp add: counters_def)

lemma targetsMissed_deliver:
  "targetsMissed (state_of (deliver ev st)) =
     (if restarts ev st then 0 else targetsMissed st + miss_events ev st)"
proof (cases ev)
  case Call_init
  then show ?thesis by simp
next
  case StartButton
  then show ?thesis by (simp add: startGame_eq resumeGame_eq resetGameState_eq)
next
  case PauseButton
  then show ?thesis by (simp add: targetsMissed_counters [OF counters_togglePause])
next
  case ResetButton
  then show ?thesis by (simp add: resetGame_def resetGameState_eq)
next
  case (CanvasClick px py)
  then show ?thesis by (simp add: handleCanvasClick_def split: option.splits)
next
  case (CanvasMouseMove px py)
  then show ?thesis by (simp add: targetsMissed_counters [OF counters_handleCanvasMouseMove])
next
  case (Keydown k)
  then show ?thesis
    by (cases k)
       (simp_all add: handleKeydown_def targetsMissed_counters [OF counters_togglePause]
          startGame_eq resumeGame_eq resetGameState_eq resetGame_def)
next
  case (VisibilityChange hidden)
  then show ?thesis
    by (simp add: handleVisibilityChange_def targetsMissed_counters [OF counters_togglePause])
next
  case (DifficultyChange d)
  then show ?thesis by (simp add: handleDifficultyChange_def)
next
  case (ModeChange m)
  then show ?thesis by (simp add: handleModeChange_def)
next
  case (TimerFires h inp)
  show ?thesis
  proof (cases "map_of (timers st) h")
    case None
    with TimerFires show ?thesis by (simp add: fire_timer_def)
  next
    case (Some c)
    show ?thesis
    proof (cases c)
      case ClockInterval
      have "targetsMissed (state_of (startTimer_interval (iso_date inp) st)) = targetsMissed st"
        by (simp add: startTimer_interval_def Let_def targetsMissed_counters [OF counters_endGame])
      with TimerFires Some ClockInterval show ?thesis by (simp add: fire_timer_def)
    next
      case SpawnInterval
      have "targetsMissed (spawnTarget inp st) = targetsMissed st"
        by (rule targetsMissed_counters) simp
      with TimerFires Some SpawnInterval show ?thesis by (simp add: fire_timer_def)
    next
      case (ExpiryTimeout i)
      let ?s = "st\<lparr>timers := filter (\<lambda>e. fst e \<noteq> h) (timers st)\<rparr>"
      have fired: "state_of (fire_timer h inp st) = spawnTarget_timeout i ?s"
        using Some ExpiryTimeout by (simp add: fire_timer_def)
      show ?thesis
      proof (cases "findIndex (\<lambda>t. tid t = i) (activeTargets st)")
        case None
        then have "spawnTarget_timeout i ?s = ?s"
          by (simp add: spawnTarget_timeout_def)
        with TimerFires Some ExpiryTimeout fired show ?thesis by simp
      next
        case found: (Some k)
        then have "k < length (activeTargets st)"
          by (simp add: findIndex_Some)
        then have len: "Suc (length (splice1 k (activeTargets st))) = length (activeTargets st)"
          by (rule length_splice1)
        have "targetsMissed (spawnTarget_timeout i ?s) = Suc (targetsMissed st)"
          and "activeTargets (spawnTarget_timeout i ?s) = splice1 k (activeTargets st)"
          using found by (simp_all add: spawnTarget_timeout_def)
        with TimerFires Some ExpiryTimeout fired len show ?thesis by simp
      qed
    qed
  qed
next
  case Call_pauseGame
  then show ?thesis by (simp add: targetsMissed_counters [OF counters_pauseGame])
next
  case Call_resumeGame
  then show ?thesis by (simp add: targetsMissed_counters [OF counters_resumeGame])
next
  case (Call_endGame date)
  then show ?thesis by (simp add: targetsMissed_counters [OF counters_endGame])
qed

lemma targetsMissed_run:
  "targetsMissed (run evs st) = misses_since_restart evs st (targetsMissed st)"
proof (induction evs arbitrary: st)
  case Nil
  show ?case by simp
next
  case (Cons ev evs)
  show ?case by (simp add: Cons.IH targetsMissed_deliver)
qed

section \<open>The claims\<close>

subsection \<open>C1: A click on a target\<close>

text \<open>
  C1. A click that lands on an active target while the session runs does not reach
  \<open>hitTarget\<close>: the handler raises \<open>TypeError\<close> with the state as it was, the target
  still in the active set. The function \<open>hitTarget\<close>, had it been called with the
  selected target, removes one target, adds one to \<open>targetsHit\<close> and ten times the
  multiplier to \<open>score\<close>, and recomputes the accuracy: to \<open>100\<close> when no miss has been
  counted, and to the percentage of the specification when that does not lie half-way
  between two integers.
\<close>

theorem click_on_target_raises:
  assumes "isPlaying st" and "\<not> isPaused st"
    and "checkTargetHit px py (activeTargets st) = Some i"
  shows "handleCanvasClick px py st = Inl (TypeError, st)
         \<and> targetsHit (hitTarget (activeTargets st ! i) st) = targetsHit st + 1
         \<and> score (hitTarget (activeTargets st ! i) st) =
             score st + 10 * scoreMultiplier (currentDifficulty st)
         \<and> accuracy_ok (hitTarget (activeTargets st ! i) st)
         \<and> (targetsMissed st = 0 \<longrightarrow> accuracy (hitTarget (activeTargets st ! i) st) = 100)
         \<and> (targetsHit st + 1 + targetsMissed st \<le> 2 ^ 44
              \<and> \<not> half_way (targetsHit st + 1) (targetsMissed st) \<longrightarrow>
              accuracy (hitTarget (activeTargets st ! i) st) =
                spec_accuracy (targetsHit st + 1) (targetsMissed st))
         \<and> Suc (length (activeTargets (hitTarget (activeTargets st ! i) st))) =
             length (activeTargets st)"
proof -
  let ?t = "activeTargets st ! i"
  have click: "handleCanvasClick px py st = Inl (TypeError, st)"
    using assms by (simp add: handleCanvasClick_def)
  from assms(3) have "i < length (activeTargets st)"
    by (simp add: checkTargetHit_latest)
  then obtain k where k: "findIndex (\<lambda>u. tid u = tid ?t) (activeTargets st) = Some k"
    and len: "k < length (activeTargets st)"
    using findIndex_finds [of i "activeTargets st" "\<lambda>u. tid u = tid ?t"] by auto
  have hit: "hitTarget ?t st =
      updateAccuracy (st\<lparr>activeTargets := splice1 k (activeTargets st),
                          targetsHit := Suc (targetsHit st),
                          score := score st + 10 * scoreMultiplier (currentDifficulty st)\<rparr>)"
    by (simp add: hitTarget_def k Let_def)
  let ?u = "st\<lparr>activeTargets := splice1 k (activeTargets st),
                  targetsHit := Suc (targetsHit st),
                  score := score st + 10 * scoreMultiplier (currentDifficulty st)\<rparr>"
  have "accuracy_ok (hitTarget ?t st)"
    by (simp only: hit accuracy_ok_updateAccuracy)
  moreover have "targetsMissed st = 0 \<longrightarrow> accuracy (hitTarget ?t st) = 100"
    using updateAccuracy_no_misses [of ?u] by (simp add: hit)
  moreover have "targetsHit st + 1 + targetsMissed st \<le> 2 ^ 44
              \<and> \<not> half_way (targetsHit st + 1) (targetsMissed st) \<longrightarrow>
              accuracy (hitTarget ?t st) = spec_accuracy (targetsHit st + 1) (targetsMissed st)"
    using updateAccuracy_exact [of ?u] by (simp add: hit)
  moreover have "Suc (length (activeTargets (hitTarget ?t st))) = length (activeTargets st)"
    using length_splice1 [OF len] by (simp add: hit)
  moreover have "targetsHit (hitTarget ?t st) = targetsHit st + 1"
    and "score (hitTarget ?t st) = score st + 10 * scoreMultiplier (currentDifficulty st)"
    by (simp_all add: hit)
  ultimately show ?thesis using click by simp
qed

theorem click_on_target_raises_witness:
  "map (\<lambda>t. (tx t, ty t, radius t)) (activeTargets one_target_session) = [(100, 100, 50)]
   \<and> currentDifficulty one_target_session = normal
   \<and> handleCanvasClick 100 100 one_target_session = Inl (TypeError, one_target_session)
   \<and> targetsHit (state_of (handleCanvasClick 100 100 one_target_session)) = 0
   \<and> score (state_of (handleCanvasClick 100 100 one_target_session)) = 0
   \<and> length (activeTargets (state_of (handleCanvasClick 100 100 one_target_session))) = 1
   \<and> targetsHit (hitTarget (activeTargets one_target_session ! 0) one_target_session) = 1
   \<and> score (hitTarget (activeTargets one_target_session ! 0) one_target_session) = 20
   \<and> accuracy (hitTarget (activeTargets one_target_session ! 0) one_target_session) = 100
   \<and> activeTargets (hitTarget (activeTargets one_target_session ! 0) one_target_session) = []"
proof -
  let ?s = one_target_session
  have hit: "checkTargetHit 100 100 (activeTargets ?s) = Some 0"
    by (simp add: one_target_session_eq checkTargetHit_def inside_def)
  have playing: "isPlaying ?s" and running: "\<not> isPaused ?s"
    and vals: "targetsHit ?s = 0" "targetsMissed ?s = 0" "score ?s = 0"
      "currentDifficulty ?s = normal" "length (activeTargets ?s) = 1"
      "map (\<lambda>t. (tx t, ty t, radius t)) (activeTargets ?s) = [(100, 100, 50)]"
    by (simp_all add: one_target_session_eq fresh_page_def initial_game_def)
  note raised = click_on_target_raises [OF playing running hit]
  from raised have click: "handleCanvasClick 100 100 ?s = Inl (TypeError, ?s)"
    by simp
  from raised vals
  have would: "targetsHit (hitTarget (activeTargets ?s ! 0) ?s) = 1"
    "score (hitTarget (activeTargets ?s ! 0) ?s) = 20"
    "accuracy (hitTarget (activeTargets ?s ! 0) ?s) = 100"
    "activeTargets (hitTarget (activeTargets ?s ! 0) ?s) = []"
    by simp_all
  show ?thesis
    unfolding click state_of_simps using vals would by (simp only:) 
qed

subsection \<open>C2: Cancellation of timers\<close>

text \<open>
  A target spawned before the pause expires while the session is paused: its timeout is
  still in the timer table, and when it fires the target is removed and a miss is counted.
\<close>

theorem expiry_fires_while_paused_counterexample:
  "paused_with_target = run [Call_init, StartButton, TimerFires 2 spawn_first, PauseButton] fresh_page
   \<and> isPlaying paused_with_target \<and> isPaused paused_with_target
   \<and> targetsMissed paused_with_target = 0 \<and> accuracy paused_with_target = 100
   \<and> length (activeTargets paused_with_target) = 1
   \<and> timers paused_with_target = [(3, ExpiryTimeout (2001 / 2))]
   \<and> targetsMissed (state_of (deliver (TimerFires 3 spawn_second) paused_with_target)) = 1
   \<and> accuracy (state_of (deliver (TimerFires 3 spawn_second) paused_with_target)) = 0
   \<and> activeTargets (state_of (deliver (TimerFires 3 spawn_second) paused_with_target)) = []"
proof -
  have "paused_with_target = run [Call_init, StartButton, TimerFires 2 spawn_first, PauseButton] fresh_page"
    by (simp only: paused_with_target_def)
  moreover have "isPlaying paused_with_target \<and> isPaused paused_with_target
   \<and> targetsMissed paused_with_target = 0 \<and> accuracy paused_with_target = 100
   \<and> length (activeTargets paused_with_target) = 1
   \<and> timers paused_with_target = [(3, ExpiryTimeout (2001 / 2))]
   \<and> targetsMissed (state_of (deliver (TimerFires 3 spawn_second) paused_with_target)) = 1
   \<and> accuracy (state_of (deliver (TimerFires 3 spawn_second) paused_with_target)) = 0
   \<and> activeTargets (state_of (deliver (TimerFires 3 spawn_second) paused_with_target)) = []"
    by (simp add: paused_with_target_eq fresh_page_def initial_game_def fire_timer_def
          spawnTarget_timeout_def splice1_def updateAccuracy_def Math_round_is_round)
  ultimately show ?thesis by (simp only:)
qed

text \<open>
  C2 (as amended). In a state whose timers are the tracked ones: pausing a running session
  cancels the clock and the spawner and leaves every pending expiry timeout in the timer
  table; after \<open>resetGame\<close> or \<open>endGame\<close> no interval is left and the active set is
  empty, so that no sequence of timer callbacks changes the session, its counters, the
  targets or the leaderboard. Whatever events follow, a new session included, the page then
  goes on as if every timer scheduled before had been cancelled: apart from the old entries
  of the timer table, its state is the one it reaches without the old callbacks from an
  empty timer table, as long as no active target has the id of a target whose expiry
  timeout was pending at the reset or the end. But an expiry timeout that fires while the
  session is paused, for a target that is still active, removes the target and counts a
  miss.
\<close>

theorem timers_after_pause_reset_end:
  assumes "timers_tracked st"
  shows "(isPlaying st \<and> \<not> isPaused st \<longrightarrow>
            isPaused (togglePause st) \<and> no_intervals (timers (togglePause st))
            \<and> (\<forall>k i. map_of (timers st) k = Some (ExpiryTimeout i) \<longrightarrow>
                  map_of (timers (togglePause st)) k = Some (ExpiryTimeout i)))
         \<and> (\<forall>r. r = state_of (resetGame st) \<or> r = state_of (endGame date st) \<longrightarrow>
               no_intervals (timers r) \<and> activeTargets r = []
               \<and> (\<forall>evs. list_all is_timer evs \<longrightarrow> session_view (run evs r) = session_view r)
               \<and> (\<forall>evs. ids_fresh (pending_ids (timers r)) evs r \<longrightarrow>
                     forget_before (nextHandle r) (run evs r) =
                       run (filter (\<lambda>ev. \<not> is_stale (nextHandle r) ev) evs) (r\<lparr>timers := []\<rparr>)
                     \<and> session_view (run evs r) =
                       session_view
                         (run (filter (\<lambda>ev. \<not> is_stale (nextHandle r) ev) evs) (r\<lparr>timers := []\<rparr>))))
         \<and> (isPaused st \<and> map_of (timers st) k = Some (ExpiryTimeout i)
              \<and> findIndex (\<lambda>t. tid t = i) (activeTargets st) = Some j \<longrightarrow>
               targetsMissed (state_of (fire_timer k inp st)) = Suc (targetsMissed st)
               \<and> activeTargets (state_of (fire_timer k inp st)) = splice1 j (activeTargets st))"
proof -
  have h: "handles_tracked st"
    using assms by (simp add: timers_tracked_def)
  have pause: "isPaused (togglePause st) \<and> no_intervals (timers (togglePause st))
            \<and> (\<forall>k i. map_of (timers st) k = Some (ExpiryTimeout i) \<longrightarrow>
                  map_of (timers (togglePause st)) k = Some (ExpiryTimeout i))"
    if run: "isPlaying st \<and> \<not> isPaused st"
  proof -
    let ?p = "st\<lparr>isPaused := True\<rparr>"
    have hp: "handles_tracked ?p"
      using h by (simp add: tracked_defs)
    have eq: "togglePause st = pauseGame ?p"
      using run by (simp add: togglePause_def Let_def)
    have "map_of (timers (pauseGame ?p)) k = Some (ExpiryTimeout i)"
      if "map_of (timers st) k = Some (ExpiryTimeout i)" for k i
    proof -
      from handles_tracked_expiry_entry [OF h that]
      have "map_of (filter (\<lambda>e. Some (fst e) \<noteq> gameTimer st \<and> Some (fst e) \<noteq> targetSpawnTimer st)
                     (timers st)) k = map_of (timers st) k"
        by (intro map_of_filter_key [where p = "\<lambda>n. Some n \<noteq> gameTimer st \<and> Some n \<noteq> targetSpawnTimer st"])
      with that show ?thesis by (simp add: pauseGame_eq)
    qed
    moreover have "isPaused (pauseGame ?p)"
      by (simp add: pauseGame_eq)
    moreover note no_intervals_pauseGame [OF hp]
    ultimately show ?thesis by (simp add: eq)
  qed
  have quiet: "no_intervals (timers r) \<and> activeTargets r = []
               \<and> (\<forall>evs. list_all is_timer evs \<longrightarrow> session_view (run evs r) = session_view r)
               \<and> (\<forall>evs. ids_fresh (pending_ids (timers r)) evs r \<longrightarrow>
                     forget_before (nextHandle r) (run evs r) =
                       run (filter (\<lambda>ev. \<not> is_stale (nextHandle r) ev) evs) (r\<lparr>timers := []\<rparr>)
                     \<and> session_view (run evs r) =
                       session_view
                         (run (filter (\<lambda>ev. \<not> is_stale (nextHandle r) ev) evs) (r\<lparr>timers := []\<rparr>)))"
    if "r = state_of (resetGame st) \<or> r = state_of (endGame date st)" for r
  proof -
    from that timers_tracked_resetGame [OF assms] timers_tracked_endGame [OF assms, of date]
    have t: "timers_tracked r" and n: "no_intervals (timers r)" and e: "activeTargets r = []"
      by auto
    from n e have "\<forall>evs. list_all is_timer evs \<longrightarrow> session_view (run evs r) = session_view r"
      using run_timers_quiet by blast
    moreover have "\<forall>evs. ids_fresh (pending_ids (timers r)) evs r \<longrightarrow>
                     forget_before (nextHandle r) (run evs r) =
                       run (filter (\<lambda>ev. \<not> is_stale (nextHandle r) ev) evs) (r\<lparr>timers := []\<rparr>)
                     \<and> session_view (run evs r) =
                       session_view
                         (run (filter (\<lambda>ev. \<not> is_stale (nextHandle r) ev) evs) (r\<lparr>timers := []\<rparr>))"
      using stale_run_quiet [OF t n] session_view_forget_before [of "nextHandle r"] by metis
    ultimately show ?thesis using n e by blast
  qed
  have expiry: "targetsMissed (state_of (fire_timer k inp st)) = Suc (targetsMissed st)
               \<and> activeTargets (state_of (fire_timer k inp st)) = splice1 j (activeTargets st)"
    if "map_of (timers st) k = Some (ExpiryTimeout i)"
      and "findIndex (\<lambda>t. tid t = i) (activeTargets st) = Some j"
    using that by (simp add: fire_timer_def spawnTarget_timeout_def)
  from pause quiet expiry show ?thesis by blast
qed

theorem timers_after_pause_reset_end_witness:
  "isPaused (togglePause one_target_session)
   \<and> timers (togglePause one_target_session) = [(3, ExpiryTimeout (2001 / 2))]
   \<and> no_intervals (timers (state_of (resetGame one_target_session)))
   \<and> session_view (run [TimerFires 1 spawn_first, TimerFires 2 spawn_second, TimerFires 3 spawn_second]
                     (state_of (resetGame one_target_session))) =
       session_view (state_of (resetGame one_target_session))
   \<and> timers after_reset = [(3, ExpiryTimeout (2001 / 2))]
   \<and> forget_before 4 (run new_session_events after_reset) =
       run [StartButton, TimerFires 5 spawn_second, CanvasClick 0 0] (after_reset\<lparr>timers := []\<rparr>)
   \<and> map tid (activeTargets (run new_session_events after_reset)) = [8001 / 4]
   \<and> targetsMissed (run new_session_events after_reset) = 1
   \<and> targetsMissed (state_of (fire_timer 3 spawn_second paused_with_target)) = 1"
proof -
  have one: "timers_tracked one_target_session"
    unfolding one_target_session_def fresh_page_def
    by (rule timers_tracked_run [OF timers_tracked_initial]) simp
  have two: "timers_tracked paused_with_target"
    unfolding paused_with_target_def fresh_page_def
    by (rule timers_tracked_run [OF timers_tracked_initial]) simp
  have running: "isPlaying one_target_session \<and> \<not> isPaused one_target_session"
    by (simp add: one_target_session_eq fresh_page_def initial_game_def)
  have ticks: "list_all is_timer
      [TimerFires 1 spawn_first, TimerFires 2 spawn_second, TimerFires 3 spawn_second]"
    by simp
  have pending: "isPaused paused_with_target
      \<and> map_of (timers paused_with_target) 3 = Some (ExpiryTimeout (2001 / 2))
      \<and> findIndex (\<lambda>t. tid t = 2001 / 2) (activeTargets paused_with_target) = Some 0"
    and zero: "targetsMissed paused_with_target = 0"
    by (simp_all add: paused_with_target_eq fresh_page_def initial_game_def)
  have left: "timers (togglePause one_target_session) = [(3, ExpiryTimeout (2001 / 2))]"
    by (simp add: one_target_session_eq fresh_page_def initial_game_def session_defs)
  note a = timers_after_pause_reset_end [OF one, of "''2024-01-01T00:00:30.000Z''" 0 0 0 spawn_first]
  note b = timers_after_pause_reset_end [OF two, of "''2024-01-01T00:00:30.000Z''" 3 "2001 / 2" 0
              spawn_second]
  from a running have p: "isPaused (togglePause one_target_session)"
    by blast
  from a have r: "no_intervals (timers (state_of (resetGame one_target_session)))"
    by blast
  from a ticks have q: "session_view (run [TimerFires 1 spawn_first, TimerFires 2 spawn_second,
                            TimerFires 3 spawn_second] (state_of (resetGame one_target_session))) =
       session_view (state_of (resetGame one_target_session))"
    by blast
  from b pending zero
  have m: "targetsMissed (state_of (fire_timer 3 spawn_second paused_with_target)) = 1"
    by simp
  have fresh: "ids_fresh (pending_ids (timers after_reset)) new_session_events after_reset"
    by (simp add: after_reset_eq new_session_events_def fresh_page_def initial_game_def session_defs
          spawn_second_def handleCanvasClick_def checkTargetHit_def inside_code
          spawnTarget_timeout_def Math_round_is_round)
  have old: "timers after_reset = [(3, ExpiryTimeout (2001 / 2))]"
    and four: "nextHandle after_reset = 4"
    by (simp_all add: after_reset_eq)
  have new: "filter (\<lambda>ev. \<not> is_stale 4 ev) new_session_events =
      [StartButton, TimerFires 5 spawn_second, CanvasClick 0 0]"
    by (simp add: new_session_events_def)
  from a have "ids_fresh (pending_ids (timers after_reset)) new_session_events after_reset \<longrightarrow>
      forget_before (nextHandle after_reset) (run new_session_events after_reset) =
        run (filter (\<lambda>ev. \<not> is_stale (nextHandle after_reset) ev) new_session_events)
          (after_reset\<lparr>timers := []\<rparr>)"
    unfolding after_reset_def by blast
  with fresh have "forget_before (nextHandle after_reset) (run new_session_events after_reset) =
        run (filter (\<lambda>ev. \<not> is_stale (nextHandle after_reset) ev) new_session_events)
          (after_reset\<lparr>timers := []\<rparr>)"
    by (rule rev_mp)
  then have s: "forget_before 4 (run new_session_events after_reset) =
       run [StartButton, TimerFires 5 spawn_second, CanvasClick 0 0] (after_reset\<lparr>timers := []\<rparr>)"
    by (simp only: four new)
  have t: "map tid (activeTargets (run new_session_events after_reset)) = [8001 / 4]"
    and u: "targetsMissed (run new_session_events after_reset) = 1"
    by (simp_all add: after_reset_eq new_session_events_def fresh_page_def initial_game_def
          session_defs spawn_second_def handleCanvasClick_def checkTargetHit_def inside_code
          spawnTarget_timeout_def Math_round_is_round)
  from p left r q old s t u m show ?thesis by (simp only:)
qed

subsection \<open>C3: Loading the leaderboard\<close>

text \<open>
  A text that is not JSON under the leaderboard key makes \<open>loadLeaderboard\<close> raise, and
  \<open>init\<close> with it, so the module is never initialised. A JSON document of another shape
  than an array is loaded as it is; the next \<open>endGame\<close> then raises at \<open>push\<close>, where a
  page with no stored leaderboard returns.
\<close>

theorem loadLeaderboard_raises_counterexample:
  "loadLeaderboard corrupt_page = Inl (SyntaxError, corrupt_page)
   \<and> init corrupt_page = Inl (SyntaxError, corrupt_page)
   \<and> isInitialized (state_of (init corrupt_page)) = False
   \<and> (\<exists>st. init wrong_shape_page = Inr st \<and> leaderboard st = JObj [(''best'', JNum 120)]
          \<and> endGame ''2024-01-01T00:00:30.000Z'' st =
               Inl (TypeError, calculateFinalScore st))
   \<and> (\<exists>st. endGame ''2024-01-01T00:00:30.000Z'' fresh_page = Inr st)"
  by (simp add: corrupt_page_def wrong_shape_page_def fresh_page_def initial_game_def
        loadLeaderboard_def init_def endGame_def stopGame_def saveToLeaderboard_def
        calculateFinalScore_def entry_def Let_def)

text \<open>
  C3 (as amended). \<open>loadLeaderboard\<close> returns normally when nothing or the empty string is stored
  (the leaderboard stays as it is), and when the stored text is a JSON document, whose
  value becomes the leaderboard whatever its shape. A stored text that is not JSON makes it
  raise \<open>SyntaxError\<close>.
\<close>

theorem loadLeaderboard_outcomes:
  "(storage st = None \<or> storage st = Some (NotJSON []) \<longrightarrow> loadLeaderboard st = Inr st)
   \<and> (storage st = Some (JSONText v) \<longrightarrow> loadLeaderboard st = Inr (st\<lparr>leaderboard := v\<rparr>))
   \<and> (storage st = Some (NotJSON s) \<and> s \<noteq> [] \<longrightarrow> loadLeaderboard st = Inl (SyntaxError, st))"
  by (auto simp: loadLeaderboard_def)

theorem loadLeaderboard_outcomes_witness:
  "loadLeaderboard fresh_page = Inr fresh_page
   \<and> loadLeaderboard wrong_shape_page =
       Inr (wrong_shape_page\<lparr>leaderboard := JObj [(''best'', JNum 120)]\<rparr>)
   \<and> loadLeaderboard corrupt_page = Inl (SyntaxError, corrupt_page)"
proof -
  have a: "storage fresh_page = None"
    by (simp add: fresh_page_def initial_game_def)
  have b: "storage wrong_shape_page = Some (JSONText (JObj [(''best'', JNum 120)]))"
    by (simp add: wrong_shape_page_def initial_game_def)
  have c: "storage corrupt_page = Some (NotJSON ''{not json'') \<and> ''{not json'' \<noteq> []"
    by (simp add: corrupt_page_def initial_game_def)
  show ?thesis
    using loadLeaderboard_outcomes [of fresh_page JNull "[]"]
          loadLeaderboard_outcomes [of wrong_shape_page "JObj [(''best'', JNum 120)]" "[]"]
          loadLeaderboard_outcomes [of corrupt_page JNull "''{not json''"]
          a b c
    by simp
qed

subsection \<open>C4: Lifecycle commands in other states\<close>

text \<open>
  \<open>resetGame\<close> on a running session stops it and resets it (and then raises, at
  \<open>render()\<close>); \<open>endGame\<close> on a page that is not playing still applies the final score
  formula and records an entry.
\<close>

theorem lifecycle_not_ignored_counterexample:
  "isPlaying one_target_session \<and> isPaused one_target_session = False
   \<and> length (activeTargets one_target_session) = 1
   \<and> resetGame one_target_session =
       Inl (ReferenceError, state_of (resetGame one_target_session))
   \<and> isPlaying (state_of (resetGame one_target_session)) = False
   \<and> activeTargets (state_of (resetGame one_target_session)) = []
   \<and> timers (state_of (resetGame one_target_session)) = [(3, ExpiryTimeout (2001 / 2))]
   \<and> isPlaying fresh_page = False \<and> score fresh_page = 0 \<and> leaderboard fresh_page = JArr []
   \<and> score (state_of (endGame ''2024-01-01T00:00:30.000Z'' fresh_page)) = 2000
   \<and> leaderboard (state_of (endGame ''2024-01-01T00:00:30.000Z'' fresh_page)) =
       JArr [JObj [(''score'', JNum 2000), (''accuracy'', JNum 100),
                   (''difficulty'', JStr ''normal''), (''mode'', JStr ''timed''),
                   (''date'', JStr ''2024-01-01T00:00:30.000Z'')]]"
  by (simp add: one_target_session_eq fresh_page_def initial_game_def resetGame_def
        stopGame_def resetGameState_def updateAccuracy_def clearInterval_def endGame_def
        calculateFinalScore_def saveToLeaderboard_def entry_def Array_sort_def Let_def)

text \<open>
  C4 (as amended). \<open>startGame\<close> while the session is playing (running or paused), and
  \<open>togglePause\<close> and \<open>pauseGame\<close> while it is not playing, return the state unchanged.
  \<open>resetGame\<close> has no state guard: on a playing session it stops the session, cancels
  the clock and the spawner, empties the active set and resets score, time and counters,
  and it leaves the leaderboard alone.
\<close>

theorem invalid_transitions:
  "(isPlaying st \<longrightarrow> startGame st = st)
   \<and> (\<not> isPlaying st \<longrightarrow> togglePause st = st)
   \<and> (\<not> isPlaying st \<and> timers_tracked st \<longrightarrow> pauseGame st = st)
   \<and> (isPlaying st \<longrightarrow>
        isPlaying (state_of (resetGame st)) = False
        \<and> isPaused (state_of (resetGame st)) = False
        \<and> score (state_of (resetGame st)) = 0
        \<and> timeLeft (state_of (resetGame st)) = gameDuration (currentMode st)
        \<and> targetsHit (state_of (resetGame st)) = 0
        \<and> targetsMissed (state_of (resetGame st)) = 0
        \<and> accuracy (state_of (resetGame st)) = 100
        \<and> activeTargets (state_of (resetGame st)) = []
        \<and> leaderboard (state_of (resetGame st)) = leaderboard st
        \<and> storage (state_of (resetGame st)) = storage st
        \<and> (\<forall>h. gameTimer st = Some h \<or> targetSpawnTimer st = Some h \<longrightarrow>
               map_of (timers (state_of (resetGame st))) h = None))"
proof -
  have a: "isPlaying st \<longrightarrow> startGame st = st"
    by (simp add: startGame_def)
  have b: "\<not> isPlaying st \<longrightarrow> togglePause st = st"
    by (simp add: togglePause_def)
  have c: "\<not> isPlaying st \<and> timers_tracked st \<longrightarrow> pauseGame st = st"
    by (simp add: pauseGame_idle)
  have d: "isPlaying st \<longrightarrow>
        isPlaying (state_of (resetGame st)) = False
        \<and> isPaused (state_of (resetGame st)) = False
        \<and> score (state_of (resetGame st)) = 0
        \<and> timeLeft (state_of (resetGame st)) = gameDuration (currentMode st)
        \<and> targetsHit (state_of (resetGame st)) = 0
        \<and> targetsMissed (state_of (resetGame st)) = 0
        \<and> accuracy (state_of (resetGame st)) = 100
        \<and> activeTargets (state_of (resetGame st)) = []
        \<and> leaderboard (state_of (resetGame st)) = leaderboard st
        \<and> storage (state_of (resetGame st)) = storage st
        \<and> (\<forall>h. gameTimer st = Some h \<or> targetSpawnTimer st = Some h \<longrightarrow>
               map_of (timers (state_of (resetGame st))) h = None)"
    by (auto simp: resetGame_def stopGame_eq resetGameState_eq map_of_eq_None_iff)
  show ?thesis by (intro conjI a b c d)
qed

theorem invalid_transitions_witness:
  "startGame one_target_session = one_target_session
   \<and> togglePause fresh_page = fresh_page
   \<and> pauseGame fresh_page = fresh_page
   \<and> isPlaying (state_of (resetGame one_target_session)) = False
   \<and> activeTargets (state_of (resetGame one_target_session)) = []
   \<and> map_of (timers (state_of (resetGame one_target_session))) 1 = None
   \<and> map_of (timers (state_of (resetGame one_target_session))) 2 = None"
proof -
  have playing: "isPlaying one_target_session"
    and idle: "\<not> isPlaying fresh_page"
    and clock: "gameTimer one_target_session = Some 1"
    and spawner: "targetSpawnTimer one_target_session = Some 2"
    by (simp_all add: one_target_session_eq fresh_page_def initial_game_def)
  have tracked: "timers_tracked fresh_page"
    unfolding fresh_page_def by (rule timers_tracked_initial)
  show ?thesis
    using invalid_transitions [of one_target_session] invalid_transitions [of fresh_page]
      playing idle clock spawner tracked
    by simp
qed

subsection \<open>C5: What the miss counter counts\<close>

text \<open>
  A click on the empty canvas counts a miss, although no target was ever in the active set.
\<close>

theorem counters_count_removals_counterexample:
  "missed_click_session = run [Call_init, StartButton, CanvasClick 0 0] fresh_page
   \<and> left_active [Call_init, StartButton, CanvasClick 0 0] fresh_page = 0
   \<and> targetsHit missed_click_session + targetsMissed missed_click_session = 1"
  by (simp add: missed_click_session_def fresh_page_def initial_game_def session_defs
        handleCanvasClick_def checkTargetHit_def)

text \<open>
  C5 (as amended). An expiry callback whose target is still active removes exactly that target and
  adds exactly one to \<open>targetsMissed\<close>; an expiry callback whose target is no longer
  active changes nothing; and a click under which no target lies also adds one to
  \<open>targetsMissed\<close>, removing no target and leaving \<open>targetsHit\<close> and the score alone.
  Along every list of events, from every state, \<open>targetsMissed\<close> is the number of
  targets that left the active set through an expiry plus the number of clicks on no target,
  counted since the last start or reset of a session.
\<close>

theorem misses_count_expiries_and_empty_clicks:
  "(findIndex (\<lambda>t. tid t = i) (activeTargets st) = Some k \<longrightarrow>
      activeTargets (spawnTarget_timeout i st) = splice1 k (activeTargets st)
      \<and> Suc (length (activeTargets (spawnTarget_timeout i st))) = length (activeTargets st)
      \<and> targetsMissed (spawnTarget_timeout i st) = Suc (targetsMissed st)
      \<and> targetsHit (spawnTarget_timeout i st) = targetsHit st)
   \<and> ((\<forall>t \<in> set (activeTargets st). tid t \<noteq> i) \<longrightarrow> spawnTarget_timeout i st = st)
   \<and> (isPlaying st \<and> \<not> isPaused st \<and> checkTargetHit px py (activeTargets st) = None \<longrightarrow>
        (\<exists>st1. handleCanvasClick px py st = Inr st1
           \<and> activeTargets st1 = activeTargets st
           \<and> targetsMissed st1 = Suc (targetsMissed st)
           \<and> targetsHit st1 = targetsHit st \<and> score st1 = score st))
   \<and> targetsMissed (run evs st) = misses_since_restart evs st (targetsMissed st)"
proof -
  have a: "findIndex (\<lambda>t. tid t = i) (activeTargets st) = Some k \<longrightarrow>
      activeTargets (spawnTarget_timeout i st) = splice1 k (activeTargets st)
      \<and> Suc (length (activeTargets (spawnTarget_timeout i st))) = length (activeTargets st)
      \<and> targetsMissed (spawnTarget_timeout i st) = Suc (targetsMissed st)
      \<and> targetsHit (spawnTarget_timeout i st) = targetsHit st"
  proof
    assume f: "findIndex (\<lambda>t. tid t = i) (activeTargets st) = Some k"
    then have "k < length (activeTargets st)"
      by (simp add: findIndex_Some)
    then have "Suc (length (splice1 k (activeTargets st))) = length (activeTargets st)"
      by (rule length_splice1)
    with f show "activeTargets (spawnTarget_timeout i st) = splice1 k (activeTargets st)
      \<and> Suc (length (activeTargets (spawnTarget_timeout i st))) = length (activeTargets st)
      \<and> targetsMissed (spawnTarget_timeout i st) = Suc (targetsMissed st)
      \<and> targetsHit (spawnTarget_timeout i st) = targetsHit st"
      by (simp add: spawnTarget_timeout_def)
  qed
  have b: "(\<forall>t \<in> set (activeTargets st). tid t \<noteq> i) \<longrightarrow> spawnTarget_timeout i st = st"
  proof
    assume "\<forall>t \<in> set (activeTargets st). tid t \<noteq> i"
    then have "findIndex (\<lambda>t. tid t = i) (activeTargets st) = None"
      by (simp add: findIndex_None)
    then show "spawnTarget_timeout i st = st"
      by (simp add: spawnTarget_timeout_def)
  qed
  have c: "isPlaying st \<and> \<not> isPaused st \<and> checkTargetHit px py (activeTargets st) = None \<longrightarrow>
        (\<exists>st1. handleCanvasClick px py st = Inr st1
           \<and> activeTargets st1 = activeTargets st
           \<and> targetsMissed st1 = Suc (targetsMissed st)
           \<and> targetsHit st1 = targetsHit st \<and> score st1 = score st)"
    by (simp add: handleCanvasClick_def)
  have d: "targetsMissed (run evs st) = misses_since_restart evs st (targetsMissed st)"
    by (rule targetsMissed_run)
  show ?thesis by (intro conjI a b c d)
qed

theorem misses_count_expiries_and_empty_clicks_witness:
  "targetsMissed (spawnTarget_timeout (2001 / 2) one_target_session) = 1
   \<and> activeTargets (spawnTarget_timeout (2001 / 2) one_target_session) = []
   \<and> spawnTarget_timeout (2001 / 2)
        (spawnTarget_timeout (2001 / 2) one_target_session) =
       spawnTarget_timeout (2001 / 2) one_target_session
   \<and> (\<exists>st1. handleCanvasClick 0 0 one_target_session = Inr st1
         \<and> length (activeTargets st1) = 1 \<and> targetsMissed st1 = 1)
   \<and> targetsMissed (run [CanvasClick 0 0, TimerFires 3 spawn_first] one_target_session) = 2"
proof -
  let ?s = one_target_session
  let ?e = "spawnTarget_timeout (2001 / 2) ?s"
  let ?evs = "[CanvasClick 0 0, TimerFires 3 spawn_first]"
  have found: "findIndex (\<lambda>t. tid t = 2001 / 2) (activeTargets ?s) = Some 0"
    by (simp add: one_target_session_eq)
  have zero: "targetsMissed ?s = 0" and one: "length (activeTargets ?s) = 1"
    and playing: "isPlaying ?s \<and> \<not> isPaused ?s"
    by (simp_all add: one_target_session_eq fresh_page_def initial_game_def)
  have outside: "checkTargetHit 0 0 (activeTargets ?s) = None"
    by (simp add: one_target_session_eq checkTargetHit_def inside_code)
  have splice: "splice1 0 (activeTargets ?s) = []"
    by (simp add: one_target_session_eq splice1_def)
  have two: "misses_since_restart ?evs ?s 0 = 2"
    by (simp add: one_target_session_eq fresh_page_def initial_game_def handleCanvasClick_def
          checkTargetHit_def inside_code fire_timer_def spawnTarget_timeout_def
          updateAccuracy_def Math_round_is_round splice1_def Let_def)
  note first = misses_count_expiries_and_empty_clicks [of "2001 / 2" ?s 0 0 0 ?evs]
  from first found zero splice
  have gone: "activeTargets ?e = []" and m: "targetsMissed ?e = 1"
    by simp_all
  from gone have none: "\<forall>t \<in> set (activeTargets ?e). tid t \<noteq> 2001 / 2"
    by simp
  note again = misses_count_expiries_and_empty_clicks [of "2001 / 2" ?e 0 0 0 "[]"]
  from again none have idem: "spawnTarget_timeout (2001 / 2) ?e = ?e"
    by blast
  from first have c: "isPlaying ?s \<and> \<not> isPaused ?s \<and> checkTargetHit 0 0 (activeTargets ?s) = None \<longrightarrow>
        (\<exists>st1. handleCanvasClick 0 0 ?s = Inr st1
           \<and> activeTargets st1 = activeTargets ?s
           \<and> targetsMissed st1 = Suc (targetsMissed ?s)
           \<and> targetsHit st1 = targetsHit ?s \<and> score st1 = score ?s)"
    by blast
  with playing outside zero one
  have click: "\<exists>st1. handleCanvasClick 0 0 ?s = Inr st1
         \<and> length (activeTargets st1) = 1 \<and> targetsMissed st1 = 1"
    by auto
  from first have "targetsMissed (run ?evs ?s) = misses_since_restart ?evs ?s (targetsMissed ?s)"
    by blast
  with zero two have total: "targetsMissed (run ?evs ?s) = 2"
    by simp
  from gone m idem click total show ?thesis by simp
qed

subsection \<open>C6: The end of a timed session\<close>

text \<open>
  C6. On a clock tick of a running timed session whose timers are the tracked ones: while
  more than one second is left the tick only decrements \<open>timeLeft\<close>; the tick that brings
  \<open>timeLeft\<close> to 0 ends the session (not playing, not paused) and sets the score to
  \<open>(score + accuracy \<times> 10) \<times> multiplier\<close>; it cancels the clock and the spawner, so that
  no interval is left and no sequence of later timer callbacks changes the score again.
\<close>

theorem final_score_computed_once:
  assumes "timers_tracked st" and "isPlaying st" and "\<not> isPaused st"
    and "currentMode st = timed" and "map_of (timers st) h = Some ClockInterval"
  shows "(1 < timeLeft st \<longrightarrow> fire_timer h inp st = Inr (st\<lparr>timeLeft := timeLeft st - 1\<rparr>))
         \<and> (timeLeft st \<le> 1 \<longrightarrow>
              isPlaying (state_of (fire_timer h inp st)) = False
              \<and> isPaused (state_of (fire_timer h inp st)) = False
              \<and> timeLeft (state_of (fire_timer h inp st)) = timeLeft st - 1
              \<and> score (state_of (fire_timer h inp st)) =
                  (score st + accuracy st * 10) * scoreMultiplier (currentDifficulty st)
              \<and> no_intervals (timers (state_of (fire_timer h inp st)))
              \<and> (\<forall>evs. list_all is_timer evs \<longrightarrow>
                    score (run evs (state_of (fire_timer h inp st))) =
                      score (state_of (fire_timer h inp st))
                    \<and> isPlaying (run evs (state_of (fire_timer h inp st))) = False))"
proof -
  let ?t = "st\<lparr>timeLeft := timeLeft st - 1\<rparr>"
  let ?e = "state_of (endGame (iso_date inp) ?t)"
  have tick: "fire_timer h inp st = startTimer_interval (iso_date inp) st"
    using assms(5) by (simp add: fire_timer_def)
  have early: "1 < timeLeft st \<longrightarrow> fire_timer h inp st = Inr ?t"
    using assms(4) by (simp add: tick startTimer_interval_def Let_def)
  have late: "state_of (fire_timer h inp st) = ?e" if "timeLeft st \<le> 1"
    using assms(4) that by (simp add: tick startTimer_interval_def Let_def)
  have tracked: "timers_tracked ?t"
    by (rule timers_tracked_frame [OF _ _ _ _ _ _ _ assms(1)]) simp_all
  note ended = timers_tracked_endGame [OF tracked, of "iso_date inp"]
  have fields: "isPaused ?e = False \<and> timeLeft ?e = timeLeft st - 1
      \<and> score ?e = (score st + accuracy st * 10) * scoreMultiplier (currentDifficulty st)"
    using assms(2)
    by (simp add: endGame_def saveToLeaderboard_frame calculateFinalScore_eq stopGame_eq)
  have quiet: "score (run evs ?e) = score ?e \<and> isPlaying (run evs ?e) = False"
    if "list_all is_timer evs" for evs
  proof -
    from ended that have "session_view (run evs ?e) = session_view ?e"
      using run_timers_quiet by blast
    with ended show ?thesis by (simp add: session_view_def)
  qed
  have "timeLeft st \<le> 1 \<longrightarrow>
              isPlaying ?e = False \<and> isPaused ?e = False
              \<and> timeLeft ?e = timeLeft st - 1
              \<and> score ?e = (score st + accuracy st * 10) * scoreMultiplier (currentDifficulty st)
              \<and> no_intervals (timers ?e)
              \<and> (\<forall>evs. list_all is_timer evs \<longrightarrow>
                    score (run evs ?e) = score ?e \<and> isPlaying (run evs ?e) = False)"
    using ended fields quiet by blast
  with early late show ?thesis by auto
qed

theorem final_score_computed_once_witness:
  "timeLeft last_second = 1 \<and> score last_second = 0 \<and> accuracy last_second = 100
   \<and> isPlaying (state_of (fire_timer 1 spawn_first last_second)) = False
   \<and> timeLeft (state_of (fire_timer 1 spawn_first last_second)) = 0
   \<and> score (state_of (fire_timer 1 spawn_first last_second)) = 2000
   \<and> score (run [TimerFires 1 spawn_first, TimerFires 1 spawn_second]
               (state_of (fire_timer 1 spawn_first last_second))) = 2000"
proof -
  have tracked: "timers_tracked last_second"
    unfolding last_second_def fresh_page_def
    by (rule timers_tracked_run [OF timers_tracked_initial]) simp
  have playing: "isPlaying last_second" and running: "\<not> isPaused last_second"
    and mode: "currentMode last_second = timed"
    and clock: "map_of (timers last_second) 1 = Some ClockInterval"
    and vals: "timeLeft last_second = 1" "score last_second = 0" "accuracy last_second = 100"
      "currentDifficulty last_second = normal"
    by (simp_all add: last_second_eq fresh_page_def initial_game_def)
  have ticks: "list_all is_timer [TimerFires 1 spawn_first, TimerFires 1 spawn_second]"
    by simp
  let ?e = "state_of (fire_timer 1 spawn_first last_second)"
  note once = final_score_computed_once [OF tracked playing running mode clock, of spawn_first]
  from once vals have ended: "isPlaying ?e = False" "timeLeft ?e = 0" "score ?e = 2000"
    by simp_all
  from once vals have "\<forall>evs. list_all is_timer evs \<longrightarrow> score (run evs ?e) = score ?e"
    by simp
  with ticks have "score (run [TimerFires 1 spawn_first, TimerFires 1 spawn_second] ?e) = score ?e"
    by blast
  with ended vals show ?thesis by (simp only:)
qed

subsection \<open>C7: Accuracy\<close>




subsection \<open>C8: Overlapping targets\<close>

text \<open>
  C8. When a point lies inside several active targets, \<open>checkTargetHit\<close> selects the one
  with the greatest index among them, which is the one spawned last, and the hover lookup
  marks exactly that one; a click at the point then raises \<open>TypeError\<close> and removes no
  target.
\<close>

theorem overlapping_click_raises:
  assumes "isPlaying st" and "\<not> isPaused st"
    and "i < length (activeTargets st)"
    and "inside px py (activeTargets st ! i)"
    and "\<forall>j. i < j \<and> j < length (activeTargets st) \<longrightarrow> \<not> inside px py (activeTargets st ! j)"
  shows "checkTargetHit px py (activeTargets st) = Some i
         \<and> map isHover (activeTargets (handleCanvasMouseMove px py st)) =
             map (\<lambda>k. k = i) [0..<length (activeTargets st)]
         \<and> handleCanvasClick px py st = Inl (TypeError, st)"
proof -
  have sel: "checkTargetHit px py (activeTargets st) = Some i"
    using assms(3-5) by (simp add: checkTargetHit_latest)
  have "map isHover (activeTargets (handleCanvasMouseMove px py st)) =
          map (\<lambda>k. k = i) [0..<length (activeTargets st)]"
    using isHover_handleCanvasMouseMove [OF assms(1,2)] sel by simp
  moreover have "handleCanvasClick px py st = Inl (TypeError, st)"
    using assms(1,2) sel by (simp add: handleCanvasClick_def)
  ultimately show ?thesis using sel by simp
qed

theorem overlapping_click_raises_witness:
  "map (\<lambda>t. (tx t, ty t, radius t)) (activeTargets two_target_session) =
     [(100, 100, 50), (100, 100, 50)]
   \<and> checkTargetHit 100 100 (activeTargets two_target_session) = Some 1
   \<and> handleCanvasClick 100 100 two_target_session = Inl (TypeError, two_target_session)
   \<and> length (activeTargets (state_of (handleCanvasClick 100 100 two_target_session))) = 2
   \<and> targetsHit (state_of (handleCanvasClick 100 100 two_target_session)) = 0"
proof -
  have playing: "isPlaying two_target_session" and running: "\<not> isPaused two_target_session"
    by (simp_all add: two_target_session_eq fresh_page_def initial_game_def)
  have len: "1 < length (activeTargets two_target_session)"
    by (simp add: two_target_session_eq)
  have ins: "inside 100 100 (activeTargets two_target_session ! 1)"
    by (simp add: two_target_session_eq inside_def)
  have last: "\<forall>j. 1 < j \<and> j < length (activeTargets two_target_session) \<longrightarrow>
                \<not> inside 100 100 (activeTargets two_target_session ! j)"
    by (auto simp: two_target_session_eq)
  note sel = overlapping_click_raises [OF playing running len ins last]
  from sel have click:
    "handleCanvasClick 100 100 two_target_session = Inl (TypeError, two_target_session)"
    by simp
  from sel have pick: "checkTargetHit 100 100 (activeTargets two_target_session) = Some 1"
    by simp
  show ?thesis
    unfolding click pick
    by (simp add: two_target_session_eq fresh_page_def initial_game_def)
qed

subsection \<open>C9: Recording a result\<close>

text \<open>
  C9. When the leaderboard is an array of entries with numeric scores, recording a
  result appends the entry built from the current score, accuracy, difficulty, mode and
  date, re-orders all entries into descending order of score with entries of equal score
  in their order of insertion, keeps the first ten and stores exactly that list. Starting
  from an empty leaderboard, eleven results with strictly increasing scores leave the ten
  highest, in descending order, in the leaderboard and in the store.
\<close>

theorem saveToLeaderboard_keeps_top_ten:
  assumes "leaderboard st = JArr xs" and "scored xs"
  shows "(\<exists>ys. saveToLeaderboard date st =
                 Inr (st\<lparr>leaderboard := JArr (take 10 ys),
                         storage := Some (JSONText (JArr (take 10 ys)))\<rparr>)
             \<and> mset ys =
                 mset (xs @ [JObj [(''score'', JNum (of_int (score st))),
                                   (''accuracy'', JNum (of_int (accuracy st))),
                                   (''difficulty'', JStr (difficulty_name (currentDifficulty st))),
                                   (''mode'', JStr (mode_name (currentMode st))),
                                   (''date'', JStr date)]])
             \<and> descending ys
             \<and> (\<forall>k. filter (\<lambda>v. the (score_of v) = k) ys =
                      filter (\<lambda>v. the (score_of v) = k)
                        (xs @ [JObj [(''score'', JNum (of_int (score st))),
                                   (''accuracy'', JNum (of_int (accuracy st))),
                                   (''difficulty'', JStr (difficulty_name (currentDifficulty st))),
                                   (''mode'', JStr (mode_name (currentMode st))),
                                   (''date'', JStr date)]])))
         \<and> (xs = [] \<and> length rs = 11 \<and> sorted_wrt (<) (map fst rs) \<longrightarrow>
              (\<exists>st1. record_sessions rs st = Inr st1
                 \<and> leaderboard st1 =
                     JArr (rev (map (\<lambda>r. JObj [(''score'', JNum (of_int (fst r))),
                          (''accuracy'', JNum (of_int (accuracy st))),
                          (''difficulty'', JStr (difficulty_name (currentDifficulty st))),
                          (''mode'', JStr (mode_name (currentMode st))),
                          (''date'', JStr (snd r))]) (tl rs)))
                 \<and> descending (rev (map (\<lambda>r. JObj [(''score'', JNum (of_int (fst r))),
                          (''accuracy'', JNum (of_int (accuracy st))),
                          (''difficulty'', JStr (difficulty_name (currentDifficulty st))),
                          (''mode'', JStr (mode_name (currentMode st))),
                          (''date'', JStr (snd r))]) (tl rs)))
                 \<and> storage st1 = Some (JSONText (leaderboard st1))))"
proof -
  have g: "(\<lambda>r. entry (snd r) (st\<lparr>score := fst r\<rparr>)) =
      (\<lambda>r. JObj [(''score'', JNum (of_int (fst r))),
                          (''accuracy'', JNum (of_int (accuracy st))),
                          (''difficulty'', JStr (difficulty_name (currentDifficulty st))),
                          (''mode'', JStr (mode_name (currentMode st))),
                          (''date'', JStr (snd r))])"
    by (simp add: entry_with_score)
  note sorted = saveToLeaderboard_sorted [OF assms, of date rs, unfolded g]
  from sorted show ?thesis
    unfolding entry_def .
qed

theorem saveToLeaderboard_keeps_top_ten_witness:
  "(\<exists>st1 ys. record_sessions eleven_sessions fresh_page = Inr st1
       \<and> leaderboard st1 = JArr ys \<and> storage st1 = Some (JSONText (JArr ys))
       \<and> map score_of ys = map Some [110, 100, 90, 80, 70, 60, 50, 40, 30, 20])
   \<and> leaderboard (state_of (saveToLeaderboard ''d03'' tie_page)) =
       JArr [JObj [(''score'', JNum 50), (''accuracy'', JNum 100), (''difficulty'', JStr ''normal''),
                   (''mode'', JStr ''timed''), (''date'', JStr ''d01'')],
             JObj [(''score'', JNum 50), (''accuracy'', JNum 100), (''difficulty'', JStr ''normal''),
                   (''mode'', JStr ''timed''), (''date'', JStr ''d02'')],
             JObj [(''score'', JNum 50), (''accuracy'', JNum 100), (''difficulty'', JStr ''normal''),
                   (''mode'', JStr ''timed''), (''date'', JStr ''d03'')]]"
proof -
  have empty: "leaderboard fresh_page = JArr []" and none: "scored []"
    by (simp_all add: fresh_page_def initial_game_def scored_def)
  have eleven: "[] = [] \<and> length eleven_sessions = 11 \<and> sorted_wrt (<) (map fst eleven_sessions)"
    by (simp add: eleven_sessions_def)
  let ?g = "(\<lambda>r. JObj [(''score'', JNum (of_int (fst r))),
                          (''accuracy'', JNum (of_int (accuracy fresh_page))),
                          (''difficulty'', JStr (difficulty_name (currentDifficulty fresh_page))),
                          (''mode'', JStr (mode_name (currentMode fresh_page))),
                          (''date'', JStr (snd r))])"
  from saveToLeaderboard_keeps_top_ten [OF empty none, of "''d00''" eleven_sessions] eleven
  obtain st1 where run: "record_sessions eleven_sessions fresh_page = Inr st1"
    and board: "leaderboard st1 = JArr (rev (map ?g (tl eleven_sessions)))"
    and stored: "storage st1 = Some (JSONText (leaderboard st1))"
    by blast
  have scores: "map score_of (rev (map ?g (tl eleven_sessions))) =
                map Some [110, 100, 90, 80, 70, 60, 50, 40, 30, 20]"
    by (simp add: eleven_sessions_def)
  have first: "\<exists>st1 ys. record_sessions eleven_sessions fresh_page = Inr st1
       \<and> leaderboard st1 = JArr ys \<and> storage st1 = Some (JSONText (JArr ys))
       \<and> map score_of ys = map Some [110, 100, 90, 80, 70, 60, 50, 40, 30, 20]"
    using run board stored scores by (intro exI conjI) simp_all
  let ?a = "JObj [(''score'', JNum 50), (''accuracy'', JNum 100), (''difficulty'', JStr ''normal''),
                   (''mode'', JStr ''timed''), (''date'', JStr ''d01'')]"
  let ?b = "JObj [(''score'', JNum 50), (''accuracy'', JNum 100), (''difficulty'', JStr ''normal''),
                   (''mode'', JStr ''timed''), (''date'', JStr ''d02'')]"
  let ?c = "JObj [(''score'', JNum 50), (''accuracy'', JNum 100), (''difficulty'', JStr ''normal''),
                   (''mode'', JStr ''timed''), (''date'', JStr ''d03'')]"
  let ?e = "JObj [(''score'', JNum (of_int (score tie_page))),
                 (''accuracy'', JNum (of_int (accuracy tie_page))),
                 (''difficulty'', JStr (difficulty_name (currentDifficulty tie_page))),
                 (''mode'', JStr (mode_name (currentMode tie_page))),
                 (''date'', JStr ''d03'')]"
  have tie: "leaderboard tie_page = JArr [?a, ?b]" and sc: "scored [?a, ?b]"
    and new: "?e = ?c"
    by (simp_all add: tie_page_def scored_def entry_def fresh_page_def initial_game_def)
  from saveToLeaderboard_keeps_top_ten [OF tie sc, of "''d03''" "[]"]
  obtain ys where save: "saveToLeaderboard ''d03'' tie_page =
        Inr (tie_page\<lparr>leaderboard := JArr (take 10 ys),
                      storage := Some (JSONText (JArr (take 10 ys)))\<rparr>)"
    and perm: "mset ys = mset ([?a, ?b] @ [?e])"
    and stable: "\<forall>k. filter (\<lambda>v. the (score_of v) = k) ys =
                     filter (\<lambda>v. the (score_of v) = k) ([?a, ?b] @ [?e])"
    by blast
  from perm have "set ys = set ([?a, ?b] @ [?e])"
    by (rule mset_eq_setD)
  then have "\<forall>v \<in> set ys. the (score_of v) = 50"
    by (simp add: new)
  then have "filter (\<lambda>v. the (score_of v) = 50) ys = ys"
    by (simp add: filter_id_conv)
  moreover from stable
  have "filter (\<lambda>v. the (score_of v) = 50) ys =
        filter (\<lambda>v. the (score_of v) = 50) ([?a, ?b] @ [?e])"
    by (rule spec)
  moreover have "filter (\<lambda>v. the (score_of v) = 50) ([?a, ?b] @ [?e]) = [?a, ?b, ?c]"
    by (simp add: new)
  ultimately have "ys = [?a, ?b, ?c]"
    by (simp only:)
  with save have second: "leaderboard (state_of (saveToLeaderboard ''d03'' tie_page)) = JArr [?a, ?b, ?c]"
    by simp
  from first second show ?thesis by (simp only:)
qed

subsection \<open>C10: Spawn ticks outside a running session\<close>

text \<open>
  C10. A spawn callback that runs while the session is not playing, or is paused, returns
  at once: \<open>spawnTarget\<close> leaves the whole state as it is (no target is added and no
  expiry timeout is registered), also when it is run by a spawn interval that is still in
  the timer table.
\<close>

theorem spawnTarget_ignored_unless_running:
  assumes "\<not> isPlaying st \<or> isPaused st"
  shows "spawnTarget inp st = st
         \<and> (map_of (timers st) h = Some SpawnInterval \<longrightarrow> fire_timer h inp st = Inr st)"
  using assms by (simp add: spawnTarget_def fire_timer_def)

theorem spawnTarget_ignored_unless_running_witness:
  "spawnTarget spawn_first fresh_page = fresh_page
   \<and> spawnTarget spawn_first paused_session = paused_session
   \<and> activeTargets paused_session = []
   \<and> isPlaying stale_spawner_page = False
   \<and> map_of (timers stale_spawner_page) 2 = Some SpawnInterval
   \<and> fire_timer 2 spawn_first stale_spawner_page = Inr stale_spawner_page"
proof -
  have idle: "\<not> isPlaying fresh_page \<or> isPaused fresh_page"
    and paused: "\<not> isPlaying paused_session \<or> isPaused paused_session"
    and none: "activeTargets paused_session = []"
    by (simp_all add: paused_session_eq fresh_page_def initial_game_def)
  have stale: "\<not> isPlaying stale_spawner_page \<or> isPaused stale_spawner_page"
    and live: "map_of (timers stale_spawner_page) 2 = Some SpawnInterval"
    and off: "isPlaying stale_spawner_page = False"
    by (simp_all add: stale_spawner_page_eq fresh_page_def initial_game_def)
  from spawnTarget_ignored_unless_running [OF idle, of spawn_first 2]
  have a: "spawnTarget spawn_first fresh_page = fresh_page" by simp
  from spawnTarget_ignored_unless_running [OF paused, of spawn_first 2]
  have b: "spawnTarget spawn_first paused_session = paused_session" by simp
  from spawnTarget_ignored_unless_running [OF stale, of spawn_first 2] live
  have c: "fire_timer 2 spawn_first stale_spawner_page = Inr stale_spawner_page" by simp
  from a b none off live c show ?thesis by (simp only:)
qed

end
